theory Spec2Isabelle
  imports Complex_Main "HOL-Library.Product_Lexorder" "HOL-Library.Multiset" "HOL-Library.Sublist"
begin

section \<open>Data model\<close>

text \<open>
  The exceptions of \<^verbatim>\<open>timelogbot.py\<close> that the modelled functions can raise.
  \<^verbatim>\<open>ValueError\<close> comes from \<^verbatim>\<open>float()\<close> on a matched group that is not a number,
  \<^verbatim>\<open>SMTPException\<close> from the mail transport in \<^verbatim>\<open>send_email\<close>, \<^verbatim>\<open>OverflowError\<close> from
  date arithmetic beyond the year 9999, \<^verbatim>\<open>KeyError\<close> from \<^verbatim>\<open>Database.__getitem__\<close>.
\<close>

datatype error = ValueError | ZeroDivisionError | SMTPException | OverflowError | KeyError

text \<open>
  A calendar date as \<^verbatim>\<open>datetime.strptime(s, '%Y-%m-%d')\<close> yields it (time of day 00:00).
  Python compares such values by year, then month, then day: \<open>date_key\<close>.
\<close>

record pydate =
  d_year :: int
  d_month :: int
  d_day :: int

definition date_key :: "pydate \<Rightarrow> int \<times> int \<times> int" where
  "date_key d = (d_year d, d_month d, d_day d)"

text \<open>
  A work unit is the dictionary \<^verbatim>\<open>{'date': ..., 'hours': ...}\<close> built in \<^verbatim>\<open>main\<close>.
  Hours are Python floats; they are modelled as exact rationals, so the rounding error of
  floating-point addition is not part of the model.
\<close>

record work_unit =
  wu_date :: pydate
  wu_hours :: rat

definition work_hours :: "work_unit list \<Rightarrow> rat" where
  "work_hours units = sum_list (map wu_hours units)"

section \<open>Identifier normalizer\<close>

text \<open>
  A Python \<^verbatim>\<open>str\<close> is a sequence of Unicode code points; for the normalizer it is modelled
  as a list of code points (natural numbers), so that its length is Python's \<^verbatim>\<open>len\<close>.
  \<^verbatim>\<open>MAP\<close> has the keys U+00F6, U+00E4, U+00E5, U+00D6, U+00C4, U+00C5 and the targets
  \<^verbatim>\<open>o\<close>, \<^verbatim>\<open>a\<close>, \<^verbatim>\<open>a\<close>, \<^verbatim>\<open>O\<close>, \<^verbatim>\<open>A\<close>, \<^verbatim>\<open>A\<close>.
\<close>

type_synonym ustring = "nat list"

definition MAP :: "(nat \<times> ustring) list" where
  "MAP = [(0xF6, [0x6F]), (0xE4, [0x61]), (0xE5, [0x61]),
          (0xD6, [0x4F]), (0xC4, [0x41]), (0xC5, [0x41])]"

text \<open>
  \<^verbatim>\<open>str.translate(table)\<close>: a code point that is a key of the table is replaced by the
  string stored for it, every other code point is kept.
\<close>

definition translate :: "(nat \<rightharpoonup> ustring) \<Rightarrow> ustring \<Rightarrow> ustring" where
  "translate table s = concat (map (\<lambda>c. case table c of Some target \<Rightarrow> target | None \<Rightarrow> [c]) s)"

definition normalize_project_id :: "ustring \<Rightarrow> ustring" where
  "normalize_project_id project_id = translate (map_of MAP) project_id"

section \<open>Sync driver: the call of the threshold evaluator\<close>

text \<open>
  \<^verbatim>\<open>main\<close> calls \<^verbatim>\<open>emailer.update(subject, hours_spent, project_start_date=work_units[-1]['date'])\<close>
  only when \<^verbatim>\<open>work_units\<close> is non-empty. \<open>update_call_args\<close> gives the hours and the
  start date of that call, \<open>None\<close> when the call is skipped.
\<close>

definition update_call_args :: "work_unit list \<Rightarrow> (rat \<times> pydate) option" where
  "update_call_args work_units =
     (if work_units \<noteq> [] then Some (work_hours work_units, wu_date (last work_units)) else None)"

text \<open>The earliest date of a non-empty list of work units, in Python's date order.\<close>

definition earliest_date_key :: "work_unit list \<Rightarrow> int \<times> int \<times> int" where
  "earliest_date_key work_units = Min (set (map (\<lambda>wu. date_key (wu_date wu)) work_units))"

section \<open>State store\<close>

text \<open>
  A \<^verbatim>\<open>datetime\<close> is modelled by its proleptic Gregorian ordinal (\<^verbatim>\<open>toordinal()\<close>, day 1
  is 0001-01-01) and the microseconds since midnight; pairs are ordered lexicographically,
  which is the order of Python's \<^verbatim>\<open>datetime\<close> comparison.
\<close>

type_synonym datetime = "int \<times> nat"

definition MAXORDINAL :: int where
  "MAXORDINAL = 3652059"

definition is_leap :: "int \<Rightarrow> bool" where
  "is_leap y = (y mod 4 = 0 \<and> (y mod 100 \<noteq> 0 \<or> y mod 400 = 0))"

definition days_before_year :: "int \<Rightarrow> int" where
  "days_before_year y = (y - 1) * 365 + (y - 1) div 4 - (y - 1) div 100 + (y - 1) div 400"

definition days_before_month :: "int \<Rightarrow> int \<Rightarrow> int" where
  "days_before_month y m =
     [0, 31, 59, 90, 120, 151, 181, 212, 243, 273, 304, 334] ! nat (m - 1)
       + (if m > 2 \<and> is_leap y then 1 else 0)"

text \<open>The datetime of a work-unit date: its ordinal, at midnight.\<close>

definition to_datetime :: "pydate \<Rightarrow> datetime" where
  "to_datetime d = (days_before_year (d_year d) + days_before_month (d_year d) (d_month d) + d_day d, 0)"

text \<open>\<^verbatim>\<open>dt + timedelta(days=n)\<close>, which raises \<^verbatim>\<open>OverflowError\<close> outside the years 1 to 9999.\<close>

definition add_days :: "datetime \<Rightarrow> int \<Rightarrow> error + datetime" where
  "add_days dt n =
     (if 1 \<le> fst dt + n \<and> fst dt + n \<le> MAXORDINAL then Inr (fst dt + n, snd dt)
      else Inl OverflowError)"

text \<open>\<^verbatim>\<open>(a - b).days\<close>: the difference in whole days, rounded down.\<close>

definition timedelta_days :: "datetime \<Rightarrow> datetime \<Rightarrow> int" where
  "timedelta_days a b = (if snd b \<le> snd a then fst a - fst b else fst a - fst b - 1)"

text \<open>
  The table \<^verbatim>\<open>projects (name, hours, date)\<close>. \<open>rows\<close> is the table as the open connection
  sees it, \<open>committed\<close> what a commit has made durable. \<^verbatim>\<open>__setitem__\<close> replaces the row, and
  the column \<^verbatim>\<open>date\<close> takes its default \<^verbatim>\<open>CURRENT_TIMESTAMP\<close>: the clock is the argument
  \<open>now\<close>. \<^verbatim>\<open>__getitem__\<close> returns the hours and the date part of the timestamp.
\<close>

record Database =
  rows :: "string \<rightharpoonup> rat \<times> datetime"
  committed :: "string \<rightharpoonup> rat \<times> datetime"

definition db_getitem :: "Database \<Rightarrow> string \<Rightarrow> error + (rat \<times> int)" where
  "db_getitem d name =
     (case rows d name of None \<Rightarrow> Inl KeyError | Some (h, ts) \<Rightarrow> Inr (h, fst ts))"

definition db_setitem :: "Database \<Rightarrow> datetime \<Rightarrow> string \<Rightarrow> rat \<Rightarrow> Database" where
  "db_setitem d now name hours = d\<lparr>rows := (rows d)(name \<mapsto> (hours, now))\<rparr>"

definition db_commit :: "Database \<Rightarrow> Database" where
  "db_commit d = d\<lparr>committed := rows d\<rparr>"

section \<open>Threshold evaluator\<close>

definition CHECKPOINT_HOURS :: "int list" where
  "CHECKPOINT_HOURS = [100, 300]"

definition CHECKPOINT_DAYS :: int where
  "CHECKPOINT_DAYS = 365"

text \<open>
  The two e-mails of \<^verbatim>\<open>EMailer.update\<close>, by the values put into their templates:
  \<open>HoursCheckpoint name checkpoint hours elapsed_days\<close> has the subject
  \<^verbatim>\<open>[TimeLog Bot] Checkpoint in project {name}: {checkpoint} hours\<close>, and
  \<open>DaysCheckpoint name CHECKPOINT_DAYS elapsed_days hours\<close> the subject
  \<^verbatim>\<open>[TimeLog Bot] Checkpoint in project {name}: {CHECKPOINT_DAYS} days\<close>.
\<close>

datatype email = HoursCheckpoint string int rat int | DaysCheckpoint string int int rat

text \<open>
  What \<^verbatim>\<open>send_email\<close> does with a message: it is printed (dry run) or handed to the SMTP
  server. \<open>trace\<close> records these effects in order; \<open>smtp_ok\<close> says whether the server
  accepts mail, otherwise \<^verbatim>\<open>smtplib\<close> raises.
\<close>

datatype mail_event = Printed email | Delivered email

fun mail_of :: "mail_event \<Rightarrow> email" where
  "mail_of (Printed e) = e"
| "mail_of (Delivered e) = e"

record EMailer =
  db :: Database
  dry_run :: bool
  smtp_ok :: bool
  trace :: "mail_event list"

definition send_email :: "EMailer \<Rightarrow> email \<Rightarrow> bool \<Rightarrow> error + EMailer" where
  "send_email em message force =
     (if dry_run em \<and> \<not> force then Inr (em\<lparr>trace := trace em @ [Printed message]\<rparr>)
      else if smtp_ok em then Inr (em\<lparr>trace := trace em @ [Delivered message]\<rparr>)
      else Inl SMTPException)"

text \<open>
  The loop over \<^verbatim>\<open>CHECKPOINT_HOURS\<close> with its \<^verbatim>\<open>break\<close>; the result is the mailer and
  \<^verbatim>\<open>sent_email\<close>.
\<close>

fun checkpoint_loop ::
  "EMailer \<Rightarrow> string \<Rightarrow> rat \<Rightarrow> rat \<Rightarrow> int \<Rightarrow> int list \<Rightarrow> error + (EMailer \<times> bool)" where
  "checkpoint_loop em name previous_hours hours elapsed_days [] = Inr (em, False)"
| "checkpoint_loop em name previous_hours hours elapsed_days (checkpoint # rest) =
     (if previous_hours < of_int checkpoint \<and> hours \<ge> of_int checkpoint
      then (case send_email em (HoursCheckpoint name checkpoint hours elapsed_days) False of
              Inl e \<Rightarrow> Inl e
            | Inr em' \<Rightarrow> Inr (em', True))
      else checkpoint_loop em name previous_hours hours elapsed_days rest)"

text \<open>
  The day checkpoint of \<^verbatim>\<open>update\<close>, entered with the mailer and \<^verbatim>\<open>sent_email\<close> left by
  the hour checkpoints.
\<close>

definition day_checkpoint ::
  "EMailer \<Rightarrow> bool \<Rightarrow> datetime \<Rightarrow> string \<Rightarrow> rat \<Rightarrow> datetime \<Rightarrow> datetime option \<Rightarrow> int
     \<Rightarrow> error + (EMailer \<times> bool)" where
  "day_checkpoint em sent_email today name hours project_start_date previous_date elapsed_days =
     (case previous_date of
        None \<Rightarrow> Inr (em, sent_email)
      | Some pd \<Rightarrow>
          if sent_email then Inr (em, sent_email)
          else (case add_days project_start_date CHECKPOINT_DAYS of
                  Inl e \<Rightarrow> Inl e
                | Inr checkpoint \<Rightarrow>
                    if pd < checkpoint \<and> today \<ge> checkpoint
                    then (case send_email em (DaysCheckpoint name CHECKPOINT_DAYS elapsed_days hours) False of
                            Inl e \<Rightarrow> Inl e
                          | Inr em' \<Rightarrow> Inr (em', True))
                    else Inr (em, sent_email)))"

text \<open>
  \<^verbatim>\<open>EMailer.update(name, hours, project_start_date)\<close>. \<open>today\<close> is the value of
  \<^verbatim>\<open>datetime.today()\<close> and of the database clock during the call. The result pairs the
  outcome (the exception, or the returned \<^verbatim>\<open>sent_email\<close>) with the mailer, whose database
  is untouched when an exception leaves the function before \<^verbatim>\<open>self.db[name] = hours\<close>.
\<close>

definition update ::
  "EMailer \<Rightarrow> datetime \<Rightarrow> string \<Rightarrow> rat \<Rightarrow> datetime \<Rightarrow> (error + bool) \<times> EMailer" where
  "update em today name hours project_start_date =
     (let (previous_hours, previous_date) =
            (case db_getitem (db em) name of
               Inr (h, d) \<Rightarrow> (Some h, Some (d, 0::nat))
             | Inl e \<Rightarrow> (None, None));
          elapsed_days = timedelta_days today project_start_date
      in case (case previous_hours of
                 None \<Rightarrow> Inr (em, False)
               | Some ph \<Rightarrow> checkpoint_loop em name ph hours elapsed_days CHECKPOINT_HOURS) of
           Inl e \<Rightarrow> (Inl e, em)
         | Inr (em1, sent1) \<Rightarrow>
             (case day_checkpoint em1 sent1 today name hours project_start_date previous_date elapsed_days of
                Inl e \<Rightarrow> (Inl e, em1)
              | Inr (em2, sent2) \<Rightarrow>
                  (Inr sent2, em2\<lparr>db := db_commit (db_setitem (db em2) today name hours)\<rparr>)))"

text \<open>The e-mails that a call added to the trace of the mailer \<open>em\<close>.\<close>

definition new_mail :: "EMailer \<Rightarrow> EMailer \<Rightarrow> email list" where
  "new_mail em em' = map mail_of (drop (length (trace em)) (trace em'))"

text \<open>The step of \<^verbatim>\<open>main\<close> that evaluates the thresholds of one matched project.\<close>

definition threshold_step ::
  "EMailer \<Rightarrow> datetime \<Rightarrow> string \<Rightarrow> work_unit list \<Rightarrow> (error + bool) \<times> EMailer" where
  "threshold_step em today subject work_units =
     (case update_call_args work_units of
        None \<Rightarrow> (Inr False, em)
      | Some (hours_spent, start) \<Rightarrow> update em today subject hours_spent (to_datetime start))"

section \<open>Report renderer: text utilities\<close>

text \<open>
  Page bodies and everything the renderer builds are HOL strings. The renderer inspects
  ASCII characters only (the marker, digits, dots, blanks, line feeds), so the model does
  not depend on how other characters are encoded.
\<close>

definition nl :: string where
  "nl = [CHR 0x0A]"

text \<open>\<^verbatim>\<open>text.find(sub)\<close>: the lowest index where \<open>sub\<close> occurs, \<open>None\<close> for Python's -1.\<close>

fun str_find :: "string \<Rightarrow> string \<Rightarrow> nat option" where
  "str_find sub [] = (if sub = [] then Some 0 else None)"
| "str_find sub (c # cs) =
     (if prefix sub (c # cs) then Some 0 else map_option Suc (str_find sub cs))"

text \<open>
  \<^verbatim>\<open>re.search("([0-9.]+) out of ([0-9.]+) hours used", s)\<close>. A match that starts at a
  given position takes the longest run of digits and dots there: a shorter run would be
  followed by a digit or a dot, where the pattern needs a blank, so backtracking never
  finds another match. \<open>match_here\<close> is the match at the start of \<open>s\<close> (its two groups),
  \<open>re_search\<close> the leftmost match.
\<close>

definition is_numch :: "char \<Rightarrow> bool" where
  "is_numch c = (c \<in> set ''0123456789.'')"

definition match_here :: "string \<Rightarrow> (string \<times> string) option" where
  "match_here s =
     (let g1 = takeWhile is_numch s; r1 = dropWhile is_numch s
      in if g1 = [] \<or> \<not> prefix '' out of '' r1 then None
         else let r2 = drop (length '' out of '') r1;
                  g2 = takeWhile is_numch r2; r3 = dropWhile is_numch r2
              in if g2 = [] \<or> \<not> prefix '' hours used'' r3 then None else Some (g1, g2))"

fun re_search :: "string \<Rightarrow> (string \<times> string) option" where
  "re_search [] = None"
| "re_search (c # cs) =
     (case match_here (c # cs) of Some m \<Rightarrow> Some m | None \<Rightarrow> re_search cs)"

text \<open>
  \<^verbatim>\<open>float(s)\<close> for the strings a group of the pattern can hold (digits and dots): digits
  with at most one dot and at least one digit, anything else raises \<^verbatim>\<open>ValueError\<close>. The
  value is the exact decimal, not its nearest double.
\<close>

definition is_digit :: "char \<Rightarrow> bool" where
  "is_digit c = (c \<in> set ''0123456789'')"

definition digit_val :: "char \<Rightarrow> nat" where
  "digit_val c = of_char c - 48"

definition nat_of_digits :: "string \<Rightarrow> nat" where
  "nat_of_digits s = foldl (\<lambda>n c. 10 * n + digit_val c) 0 s"

definition py_float :: "string \<Rightarrow> error + rat" where
  "py_float s =
     (let ip = takeWhile is_digit s
      in case dropWhile is_digit s of
           [] \<Rightarrow> if ip = [] then Inl ValueError else Inr (of_nat (nat_of_digits ip))
         | c # fp \<Rightarrow>
             if c = CHR ''.'' \<and> list_all is_digit fp \<and> (ip \<noteq> [] \<or> fp \<noteq> [])
             then Inr (of_nat (nat_of_digits ip) + of_nat (nat_of_digits fp) / 10 ^ length fp)
             else Inl ValueError)"

text \<open>
  Number formatting. \<open>format_f d x\<close> is \<^verbatim>\<open>'{:.df}'.format(x)\<close>: the value rounded to \<open>d\<close>
  decimals, ties to even, a minus sign for a negative value. \<open>format_percent x\<close> is
  \<^verbatim>\<open>'{:.1%}'.format(x)\<close>.
\<close>

definition digit_char :: "nat \<Rightarrow> char" where
  "digit_char n = ''0123456789'' ! n"

fun show_nat :: "nat \<Rightarrow> string" where
  "show_nat n = (if n < 10 then [digit_char n] else show_nat (n div 10) @ [digit_char (n mod 10)])"

declare show_nat.simps [simp del]

definition round_half_even :: "rat \<Rightarrow> int" where
  "round_half_even x =
     (let f = \<lfloor>x\<rfloor>; r = x - of_int f
      in if r < 1 / 2 then f else if 1 / 2 < r then f + 1 else if even f then f else f + 1)"

definition zero_pad :: "nat \<Rightarrow> string \<Rightarrow> string" where
  "zero_pad w s = replicate (w - length s) (CHR ''0'') @ s"

definition format_f :: "nat \<Rightarrow> rat \<Rightarrow> string" where
  "format_f d x =
     (let n = nat (round_half_even (\<bar>x\<bar> * 10 ^ d))
      in (if x < 0 then ''-'' else [])
         @ show_nat (n div 10 ^ d)
         @ (if d = 0 then [] else ''.'' @ zero_pad d (show_nat (n mod 10 ^ d))))"

definition format_percent :: "rat \<Rightarrow> string" where
  "format_percent x = format_f 1 (x * 100) @ ''%''"

text \<open>
  \<^verbatim>\<open>textwrap.dedent\<close>: lines of blanks and tabs only become empty; the margin is the longest
  common prefix of the leading blanks of the other lines; the margin is removed from every
  line that starts with it.
\<close>

fun split_nl :: "string \<Rightarrow> string list" where
  "split_nl [] = [[]]"
| "split_nl (c # cs) =
     (if c = CHR 0x0A then [] # split_nl cs
      else (case split_nl cs of l # ls \<Rightarrow> (c # l) # ls | [] \<Rightarrow> [[c]]))"

fun join_nl :: "string list \<Rightarrow> string" where
  "join_nl [] = []"
| "join_nl [l] = l"
| "join_nl (l # ls) = l @ nl @ join_nl ls"

definition is_blank :: "char \<Rightarrow> bool" where
  "is_blank c = (c = CHR '' '' \<or> c = CHR 0x09)"

fun common_margin :: "string \<Rightarrow> string list \<Rightarrow> string" where
  "common_margin margin [] = margin"
| "common_margin margin (indent # rest) =
     common_margin
       (if prefix margin indent then margin
        else if prefix indent margin then indent
        else longest_common_prefix margin indent) rest"

definition dedent :: "string \<Rightarrow> string" where
  "dedent text =
     (let ls = map (\<lambda>l. if list_all is_blank l then [] else l) (split_nl text);
          indents = map (takeWhile is_blank) (filter (\<lambda>l. l \<noteq> []) ls);
          margin = (case indents of [] \<Rightarrow> [] | i # rest \<Rightarrow> common_margin i rest)
      in join_nl (map (\<lambda>l. if margin \<noteq> [] \<and> prefix margin l then drop (length margin) l else l) ls))"

section \<open>Report renderer\<close>

definition marker :: string where
  "marker = ''<hr />''"

text \<open>\<^verbatim>\<open>a / b\<close> on numbers: division by zero raises.\<close>

definition py_div :: "rat \<Rightarrow> rat \<Rightarrow> error + rat" where
  "py_div a b = (if b = 0 then Inl ZeroDivisionError else Inr (a / b))"

text \<open>
  \<^verbatim>\<open>percent = hours_spent / budget if budget > 0 else 0.0\<close>, in \<^verbatim>\<open>update_report_page\<close>
  and in the progress line of \<^verbatim>\<open>main\<close>.
\<close>

definition completion_percent :: "rat \<Rightarrow> rat \<Rightarrow> error + rat" where
  "completion_percent hours_spent budget = (if budget > 0 then py_div hours_spent budget else Inr 0)"

text \<open>The template of the report head after \<^verbatim>\<open>format\<close>, before \<^verbatim>\<open>textwrap.dedent\<close>.\<close>

definition report_template :: "string \<Rightarrow> rat \<Rightarrow> rat \<Rightarrow> rat \<Rightarrow> string" where
  "report_template project_name percent hours budget =
     nl @ ''            '' @ marker @ nl
     @ ''            <h2>Project '' @ project_name @ '' is '' @ format_percent percent @ '' complete</h2>'' @ nl
     @ ''            <p>'' @ format_f 2 hours @ '' out of '' @ format_f 0 budget @ '' hours used.</p>'' @ nl
     @ ''        ''"

text \<open>
  \<^verbatim>\<open>sorted(work_units, key=lambda wu: wu['date'], reverse=True)\<close>: a stable sort in
  descending order, which CPython computes by reversing, sorting and reversing again.
\<close>

definition sorted_reverse :: "work_unit list \<Rightarrow> work_unit list" where
  "sorted_reverse work_units = rev (sort_key (\<lambda>wu. date_key (wu_date wu)) (rev work_units))"

text \<open>\<^verbatim>\<open>itertools.groupby\<close>: maximal runs of consecutive elements with equal keys.\<close>

function groupby :: "('a \<Rightarrow> 'k) \<Rightarrow> 'a list \<Rightarrow> ('k \<times> 'a list) list" where
  "groupby key [] = []"
| "groupby key (x # xs) =
     (key x, x # takeWhile (\<lambda>y. key y = key x) xs) # groupby key (dropWhile (\<lambda>y. key y = key x) xs)"
  by pat_completeness auto
termination
  by (relation "measure (\<lambda>(key, xs). length xs)") (auto simp: length_dropWhile_le less_Suc_eq_le)

text \<open>The months of the table, most recent first, each with the sum of its hours.\<close>

definition month_totals :: "work_unit list \<Rightarrow> ((int \<times> int) \<times> rat) list" where
  "month_totals work_units =
     map (\<lambda>(ym, group). (ym, sum_list (map wu_hours group)))
       (groupby (\<lambda>wu. (d_year (wu_date wu), d_month (wu_date wu))) (sorted_reverse work_units))"

text \<open>\<^verbatim>\<open>date(year, month, 1).strftime("%B %Y")\<close> and the table row for one month.\<close>

definition month_name :: "int \<Rightarrow> string" where
  "month_name m =
     [''January'', ''February'', ''March'', ''April'', ''May'', ''June'', ''July'',
      ''August'', ''September'', ''October'', ''November'', ''December''] ! nat (m - 1)"

definition table_row :: "(int \<times> int) \<times> rat \<Rightarrow> string" where
  "table_row r =
     (case r of ((year, month), hours) \<Rightarrow>
        ''<tr><td>'' @ month_name month @ '' '' @ show_nat (nat year) @ ''</td><td>''
        @ format_f 2 hours @ ''</td></tr>'' @ nl)"

definition make_report :: "string \<Rightarrow> rat \<Rightarrow> rat \<Rightarrow> rat \<Rightarrow> work_unit list \<Rightarrow> string" where
  "make_report space_name percent hours_spent budget work_units =
     dedent (report_template space_name percent hours_spent budget)
     @ ''<p><table>'' @ nl
     @ ''<tr><th>Date</th><th>Hours spent</th></tr>'' @ nl
     @ concat (map table_row (month_totals work_units))
     @ ''</table></p>''"

text \<open>
  \<^verbatim>\<open>Confluence.update_report_page\<close> between the download of the page and the upload:
  \<open>force\<close> is \<^verbatim>\<open>self.force\<close>, \<open>text\<close> the storage value of the page. The result is the
  storage value after the call together with the returned flag: \<^verbatim>\<open>text + "\n" + report\<close>
  of the content built for the upload and \<open>True\<close>, or the page as it was and \<open>False\<close> when
  the function returns early. The tolerance \<^verbatim>\<open>0.01\<close> is the exact hundredth.
\<close>

definition update_report_page ::
  "bool \<Rightarrow> string \<Rightarrow> string \<Rightarrow> work_unit list \<Rightarrow> rat \<Rightarrow> error + (string \<times> bool)" where
  "update_report_page force space_name text work_units budget =
     (let hours_spent = work_hours work_units;
          index = str_find marker text
      in case (case index of
                 None \<Rightarrow> Inr (Some text)
               | Some i \<Rightarrow>
                   if \<not> force then
                     (case re_search (drop i text) of
                        None \<Rightarrow> Inr (Some (take i text))
                      | Some (g1, g2) \<Rightarrow>
                          (case py_float g1 of
                             Inl e \<Rightarrow> Inl e
                           | Inr previous_hours_spent \<Rightarrow>
                               (case py_float g2 of
                                  Inl e \<Rightarrow> Inl e
                                | Inr previous_budget \<Rightarrow>
                                    if \<bar>hours_spent - previous_hours_spent\<bar> < 1 / 100
                                       \<and> \<bar>previous_budget - budget\<bar> < 1 / 100
                                    then Inr None
                                    else Inr (Some (take i text)))))
                   else Inr (Some (take i text))) of
           Inl e \<Rightarrow> Inl e
         | Inr None \<Rightarrow> Inr (text, False)
         | Inr (Some text') \<Rightarrow>
             (case completion_percent hours_spent budget of
                Inl e \<Rightarrow> Inl e
              | Inr percent \<Rightarrow>
                  Inr (text' @ nl @ make_report space_name percent hours_spent budget work_units, True)))"

text \<open>The part of a page body before its first marker, the whole body without one.\<close>

definition before_marker :: "string \<Rightarrow> string" where
  "before_marker text = (case str_find marker text of None \<Rightarrow> text | Some i \<Rightarrow> take i text)"

section \<open>Properties of the identifier normalizer\<close>

lemma translate_Nil: "translate table [] = []"
  by (simp add: translate_def)

lemma translate_Cons:
  "translate table (c # s) = (case table c of Some target \<Rightarrow> target | None \<Rightarrow> [c]) @ translate table s"
  by (simp add: translate_def)

lemma map_of_MAP:
  "map_of MAP c =
     (if c = 0xF6 then Some [0x6F] else if c = 0xE4 then Some [0x61]
      else if c = 0xE5 then Some [0x61] else if c = 0xD6 then Some [0x4F]
      else if c = 0xC4 then Some [0x41] else if c = 0xC5 then Some [0x41] else None)"
  by (simp add: MAP_def)

text \<open>
  C7. The normalizer is a total function on code-point sequences. It replaces each of
  the six accented letters by its unaccented letter and keeps every other code point, so
  the result has the length of the input; the string "Orjan aao" (with the accents of the
  claim: U+00D6 r j a n, space, U+00E5 U+00E4 U+00F6) is the image of the claim's example.
\<close>

theorem normalize_project_id_spec:
  "normalize_project_id s =
     map (\<lambda>c. if c = 0xF6 then 0x6F else if c = 0xE4 then 0x61 else if c = 0xE5 then 0x61
              else if c = 0xD6 then 0x4F else if c = 0xC4 then 0x41 else if c = 0xC5 then 0x41
              else c) s
   \<and> length (normalize_project_id s) = length s
   \<and> normalize_project_id [0xD6, 0x72, 0x6A, 0x61, 0x6E, 0x20, 0xE5, 0xE4, 0xF6]
       = [0x4F, 0x72, 0x6A, 0x61, 0x6E, 0x20, 0x61, 0x61, 0x6F]"
proof -
  have m: "normalize_project_id s =
     map (\<lambda>c. if c = 0xF6 then 0x6F else if c = 0xE4 then 0x61 else if c = 0xE5 then 0x61
              else if c = 0xD6 then 0x4F else if c = 0xC4 then 0x41 else if c = 0xC5 then 0x41
              else c) s" for s
    unfolding normalize_project_id_def
    by (induction s) (simp_all add: translate_Nil translate_Cons map_of_MAP)
  have l: "length (normalize_project_id s) = length s"
    by (simp add: m)
  have e: "normalize_project_id [0xD6, 0x72, 0x6A, 0x61, 0x6E, 0x20, 0xE5, 0xE4, 0xF6]
       = [0x4F, 0x72, 0x6A, 0x61, 0x6E, 0x20, 0x61, 0x61, 0x6F]"
    by (simp add: m)
  from m l e show ?thesis by blast
qed

section \<open>Properties of the sync driver's call\<close>

text \<open>
  C2. The claim says that the start date passed to the threshold evaluator is the earliest
  date of the project's work units. \<^verbatim>\<open>main\<close> passes \<^verbatim>\<open>work_units[-1]['date']\<close>, the date
  of the last time entry in the order the tracker returned them, although the comment at
  \<^verbatim>\<open>CHECKPOINT_DAYS\<close> speaks of "days since the first logged hour" and the report renderer
  sorts the same list before it relies on the order. For the entries 2024-01-05 (2 h) and
  2024-02-01 (1 h), in this order, the date passed is 2024-02-01 and the earliest date is
  2024-01-05.
\<close>

theorem update_call_args_last:
  "update_call_args
     [\<lparr>wu_date = \<lparr>d_year = 2024, d_month = 1, d_day = 5\<rparr>, wu_hours = 2\<rparr>,
      \<lparr>wu_date = \<lparr>d_year = 2024, d_month = 2, d_day = 1\<rparr>, wu_hours = 1\<rparr>]
     = Some (3, \<lparr>d_year = 2024, d_month = 2, d_day = 1\<rparr>)
   \<and> earliest_date_key
     [\<lparr>wu_date = \<lparr>d_year = 2024, d_month = 1, d_day = 5\<rparr>, wu_hours = 2\<rparr>,
      \<lparr>wu_date = \<lparr>d_year = 2024, d_month = 2, d_day = 1\<rparr>, wu_hours = 1\<rparr>]
     = date_key \<lparr>d_year = 2024, d_month = 1, d_day = 5\<rparr>
   \<and> date_key \<lparr>d_year = 2024, d_month = 2, d_day = 1\<rparr> \<noteq> date_key \<lparr>d_year = 2024, d_month = 1, d_day = 5\<rparr>"
  by (simp add: update_call_args_def work_hours_def earliest_date_key_def date_key_def)

text \<open>
  The date passed is the earliest one when the entries arrive newest first, the order in
  which the renderer arranges its own copy of the list.
\<close>

lemma update_call_args_newest_first:
  assumes "sorted_wrt (\<lambda>a b. date_key (wu_date b) \<le> date_key (wu_date a)) work_units"
    and "work_units \<noteq> []"
  shows "update_call_args work_units = Some (work_hours work_units, wu_date (last work_units))
       \<and> date_key (wu_date (last work_units)) = earliest_date_key work_units"
proof -
  have le: "date_key (wu_date (last work_units)) \<le> date_key (wu_date x)" if "x \<in> set work_units" for x
  proof -
    from that obtain i where i: "i < length work_units" "x = work_units ! i"
      by (auto simp: in_set_conv_nth)
    show ?thesis
    proof (cases "i = length work_units - 1")
      case True
      with i assms(2) show ?thesis by (simp add: last_conv_nth)
    next
      case False
      with i have "i < length work_units - 1" "length work_units - 1 < length work_units" by simp_all
      with assms(1) have "date_key (wu_date (work_units ! (length work_units - 1)))
            \<le> date_key (wu_date (work_units ! i))"
        by (simp only: sorted_wrt_iff_nth_less)
      with i assms(2) show ?thesis by (simp add: last_conv_nth)
    qed
  qed
  have "Min (set (map (\<lambda>wu. date_key (wu_date wu)) work_units)) = date_key (wu_date (last work_units))"
  proof (rule Min_eqI)
    show "finite (set (map (\<lambda>wu. date_key (wu_date wu)) work_units))" by simp
    show "date_key (wu_date (last work_units)) \<le> y"
      if "y \<in> set (map (\<lambda>wu. date_key (wu_date wu)) work_units)" for y
      using that le by auto
    show "date_key (wu_date (last work_units)) \<in> set (map (\<lambda>wu. date_key (wu_date wu)) work_units)"
      using assms(2) by simp
  qed
  then show ?thesis using assms(2) by (simp add: update_call_args_def earliest_date_key_def)
qed

section \<open>Properties of the threshold evaluator\<close>

lemma send_email_ok:
  "dry_run em \<or> smtp_ok em \<Longrightarrow>
     send_email em m False = Inr (em\<lparr>trace := trace em @ [if dry_run em then Printed m else Delivered m]\<rparr>)"
  by (auto simp: send_email_def)

lemma send_email_fail:
  "\<not> dry_run em \<Longrightarrow> \<not> smtp_ok em \<Longrightarrow> send_email em m False = Inl SMTPException"
  by (auto simp: send_email_def)

lemma new_mail_update:
  assumes "dry_run em \<or> smtp_ok em"
  shows "new_mail em (snd (update em today name hours start)) =
    (case rows (db em) name of
       None \<Rightarrow> []
     | Some row \<Rightarrow>
         if fst row < 100 \<and> 100 \<le> hours then [HoursCheckpoint name 100 hours (timedelta_days today start)]
         else if fst row < 300 \<and> 300 \<le> hours then [HoursCheckpoint name 300 hours (timedelta_days today start)]
         else (case add_days start 365 of
                 Inl e \<Rightarrow> []
               | Inr cp \<Rightarrow>
                   if (fst (snd row), 0) < cp \<and> cp \<le> today
                   then [DaysCheckpoint name 365 (timedelta_days today start) hours]
                   else []))"
proof (cases "rows (db em) name")
  case None
  then show ?thesis
    by (simp add: update_def Let_def db_getitem_def day_checkpoint_def new_mail_def)
next
  case (Some row)
  obtain ph ts where row: "row = (ph, ts)" by (cases row)
  show ?thesis
    by (cases "add_days start 365")
       (simp_all add: update_def Let_def db_getitem_def day_checkpoint_def new_mail_def Some row
          CHECKPOINT_HOURS_def CHECKPOINT_DAYS_def send_email_ok[OF assms]
          del: less_prod_simp less_eq_prod_simp)
qed

text \<open>
  C3. Hour-checkpoint rule, for a mailer that can hand the message over (dry run, or a
  server that accepts it). An hour-checkpoint e-mail is among the e-mails of the call if
  and only if the store has a row for the project and some checkpoint \<open>c\<close> of
  \<open>CHECKPOINT_HOURS = [100, 300]\<close> has \<open>previous_hours < c \<le> hours\<close>; the e-mail names
  the project, the hours, the elapsed days and the lowest such checkpoint; the call adds
  at most one e-mail; a previous value of 90 and 105 hours now give the e-mail for 100; with
  no row for the project the call adds no e-mail.
\<close>

theorem hour_checkpoint_rule:
  assumes "dry_run em \<or> smtp_ok em"
  shows "CHECKPOINT_HOURS = [100, 300]
   \<and> ((\<exists>n c h el. HoursCheckpoint n c h el \<in> set (new_mail em (snd (update em today name hours start))))
        \<longleftrightarrow> (\<exists>ph ts. rows (db em) name = Some (ph, ts)
              \<and> (\<exists>c\<in>set CHECKPOINT_HOURS. ph < of_int c \<and> of_int c \<le> hours)))
   \<and> (\<forall>ph ts n c h el. rows (db em) name = Some (ph, ts)
          \<longrightarrow> HoursCheckpoint n c h el \<in> set (new_mail em (snd (update em today name hours start)))
          \<longrightarrow> n = name \<and> h = hours \<and> el = timedelta_days today start
              \<and> c \<in> set CHECKPOINT_HOURS \<and> ph < of_int c \<and> of_int c \<le> hours
              \<and> (\<forall>c'\<in>set CHECKPOINT_HOURS. ph < of_int c' \<and> of_int c' \<le> hours \<longrightarrow> c \<le> c'))
   \<and> length (new_mail em (snd (update em today name hours start))) \<le> 1
   \<and> (\<forall>ts. rows (db em) name = Some (90, ts)
          \<longrightarrow> new_mail em (snd (update em today name 105 start))
                = [HoursCheckpoint name 100 105 (timedelta_days today start)])
   \<and> (rows (db em) name = None
          \<longrightarrow> new_mail em (snd (update em today name hours start)) = [])"
proof -
  note nm = new_mail_update[OF assms]
  have 1: "CHECKPOINT_HOURS = [100, 300]" by (simp add: CHECKPOINT_HOURS_def)
  have 2: "(\<exists>n c h el. HoursCheckpoint n c h el \<in> set (new_mail em (snd (update em today name hours start))))
        \<longleftrightarrow> (\<exists>ph ts. rows (db em) name = Some (ph, ts)
              \<and> (\<exists>c\<in>set CHECKPOINT_HOURS. ph < of_int c \<and> of_int c \<le> hours))"
  proof (cases "rows (db em) name")
    case None
    then show ?thesis by (simp add: nm)
  next
    case (Some row)
    obtain ph ts where row: "row = (ph, ts)" by (cases row)
    show ?thesis
      by (cases "add_days start 365") (auto simp: nm Some row 1)
  qed
  have 3: "\<forall>ph ts n c h el. rows (db em) name = Some (ph, ts)
          \<longrightarrow> HoursCheckpoint n c h el \<in> set (new_mail em (snd (update em today name hours start)))
          \<longrightarrow> n = name \<and> h = hours \<and> el = timedelta_days today start
              \<and> c \<in> set CHECKPOINT_HOURS \<and> ph < of_int c \<and> of_int c \<le> hours
              \<and> (\<forall>c'\<in>set CHECKPOINT_HOURS. ph < of_int c' \<and> of_int c' \<le> hours \<longrightarrow> c \<le> c')"
  proof (intro allI impI)
    fix ph ts n c h el
    assume r: "rows (db em) name = Some (ph, ts)"
      and m: "HoursCheckpoint n c h el \<in> set (new_mail em (snd (update em today name hours start)))"
    from m show "n = name \<and> h = hours \<and> el = timedelta_days today start
              \<and> c \<in> set CHECKPOINT_HOURS \<and> ph < of_int c \<and> of_int c \<le> hours
              \<and> (\<forall>c'\<in>set CHECKPOINT_HOURS. ph < of_int c' \<and> of_int c' \<le> hours \<longrightarrow> c \<le> c')"
      by (cases "add_days start 365") (auto simp: nm r 1 split: if_splits)
  qed
  have 4: "length (new_mail em (snd (update em today name hours start))) \<le> 1"
    by (simp add: nm split: option.split sum.split)
  have 5: "\<forall>ts. rows (db em) name = Some (90, ts)
          \<longrightarrow> new_mail em (snd (update em today name 105 start))
                = [HoursCheckpoint name 100 105 (timedelta_days today start)]"
    by (simp add: nm)
  have 6: "rows (db em) name = None
          \<longrightarrow> new_mail em (snd (update em today name hours start)) = []"
    by (simp add: nm)
  from 1 2 3 4 5 6 show ?thesis by blast
qed

theorem hour_checkpoint_rule_witness:
  "(dry_run \<lparr>db = \<lparr>rows = [''P_1234'' \<mapsto> (90, (738000, 0))], committed = Map.empty\<rparr>,
              dry_run = False, smtp_ok = True, trace = []\<rparr>
    \<or> smtp_ok \<lparr>db = \<lparr>rows = [''P_1234'' \<mapsto> (90, (738000, 0))], committed = Map.empty\<rparr>,
              dry_run = False, smtp_ok = True, trace = []\<rparr>)
   \<and> new_mail \<lparr>db = \<lparr>rows = [''P_1234'' \<mapsto> (90, (738000, 0))], committed = Map.empty\<rparr>,
              dry_run = False, smtp_ok = True, trace = []\<rparr>
        (snd (update \<lparr>db = \<lparr>rows = [''P_1234'' \<mapsto> (90, (738000, 0))], committed = Map.empty\<rparr>,
              dry_run = False, smtp_ok = True, trace = []\<rparr> (738100, 5) ''P_1234'' 105 (738000, 0)))
     = [HoursCheckpoint ''P_1234'' 100 105 100]"
proof -
  let ?E = "\<lparr>db = \<lparr>rows = [''P_1234'' \<mapsto> (90::rat, (738000::int, 0::nat))], committed = Map.empty\<rparr>,
              dry_run = False, smtp_ok = True, trace = []\<rparr>"
  have ok: "dry_run ?E \<or> smtp_ok ?E" by simp
  have r: "rows (db ?E) ''P_1234'' = Some (90, (738000, 0))" by simp
  have "\<forall>ts. rows (db ?E) ''P_1234'' = Some (90, ts)
          \<longrightarrow> new_mail ?E (snd (update ?E (738100, 5) ''P_1234'' 105 (738000, 0)))
                = [HoursCheckpoint ''P_1234'' 100 105 (timedelta_days (738100, 5) (738000, 0))]"
    using hour_checkpoint_rule[OF ok, where today = "(738100, 5)" and name = "''P_1234''"
        and start = "(738000, 0)" and hours = 105]
    by blast
  with r have "new_mail ?E (snd (update ?E (738100, 5) ''P_1234'' 105 (738000, 0)))
                = [HoursCheckpoint ''P_1234'' 100 105 (timedelta_days (738100, 5) (738000, 0))]"
    by blast
  then show ?thesis by (simp add: timedelta_days_def)
qed

text \<open>
  C4. Day-checkpoint rule, for a mailer that can hand the message over and datetimes that
  Python can represent. A day-checkpoint e-mail is among the e-mails of the call if and only
  if no hour-checkpoint e-mail is, the store has a row for the project, and
  \<open>previous_date < project_start_date + 365 days \<le> today\<close>, where \<open>previous_date\<close> is the
  date of the stored timestamp at midnight. With the previous update at start + 364 days and
  today at start + 366 days the call adds exactly one e-mail, the day-checkpoint e-mail
  when no hour checkpoint is crossed; with the previous update at start + 366 days no
  day-checkpoint e-mail is added; the call never adds more than one e-mail.
\<close>

theorem day_checkpoint_rule:
  assumes "dry_run em \<or> smtp_ok em" and "1 \<le> fst start" and "fst today \<le> MAXORDINAL"
  shows "CHECKPOINT_DAYS = 365
   \<and> ((\<exists>n d el h. DaysCheckpoint n d el h \<in> set (new_mail em (snd (update em today name hours start))))
        \<longleftrightarrow> (\<not> (\<exists>n c h el. HoursCheckpoint n c h el \<in> set (new_mail em (snd (update em today name hours start))))
             \<and> (\<exists>ph ts. rows (db em) name = Some (ph, ts)
                   \<and> (fst ts, 0) < (fst start + CHECKPOINT_DAYS, snd start)
                   \<and> (fst start + CHECKPOINT_DAYS, snd start) \<le> today)))
   \<and> (\<forall>n d el h. DaysCheckpoint n d el h \<in> set (new_mail em (snd (update em today name hours start)))
          \<longrightarrow> n = name \<and> d = CHECKPOINT_DAYS \<and> el = timedelta_days today start \<and> h = hours)
   \<and> (\<forall>ph s t t'. start = (s, 0) \<and> rows (db em) name = Some (ph, (s + 364, t)) \<and> today = (s + 366, t')
          \<longrightarrow> length (new_mail em (snd (update em today name hours start))) = 1
             \<and> ((\<forall>c\<in>set CHECKPOINT_HOURS. \<not> (ph < of_int c \<and> of_int c \<le> hours))
                  \<longrightarrow> new_mail em (snd (update em today name hours start))
                        = [DaysCheckpoint name 365 366 hours]))
   \<and> (\<forall>ph s t t' n d el h. start = (s, 0) \<and> rows (db em) name = Some (ph, (s + 366, t)) \<and> today = (s + 367, t')
          \<longrightarrow> DaysCheckpoint n d el h \<notin> set (new_mail em (snd (update em today name hours start))))
   \<and> length (new_mail em (snd (update em today name hours start))) \<le> 1"
proof -
  note nm = new_mail_update[OF assms(1)]
  have cd: "CHECKPOINT_DAYS = 365" by (simp add: CHECKPOINT_DAYS_def)
  have ch: "CHECKPOINT_HOURS = [100, 300]" by (simp add: CHECKPOINT_HOURS_def)
  have ad: "add_days start 365 = (if fst start + 365 \<le> MAXORDINAL then Inr (fst start + 365, snd start) else Inl OverflowError)"
    using assms(2) by (simp add: add_days_def)
  have big: "\<not> fst start + 365 \<le> MAXORDINAL \<Longrightarrow> \<not> (fst start + 365, snd start) \<le> today"
    using assms(3) by (cases today) auto
  have 2: "(\<exists>n d el h. DaysCheckpoint n d el h \<in> set (new_mail em (snd (update em today name hours start))))
        \<longleftrightarrow> (\<not> (\<exists>n c h el. HoursCheckpoint n c h el \<in> set (new_mail em (snd (update em today name hours start))))
             \<and> (\<exists>ph ts. rows (db em) name = Some (ph, ts)
                   \<and> (fst ts, 0) < (fst start + CHECKPOINT_DAYS, snd start)
                   \<and> (fst start + CHECKPOINT_DAYS, snd start) \<le> today))"
  proof (cases "rows (db em) name")
    case None
    then show ?thesis by (simp add: nm)
  next
    case (Some row)
    obtain ph ts where row: "row = (ph, ts)" by (cases row)
    show ?thesis
    proof (cases "fst start + 365 \<le> MAXORDINAL")
      case True
      then show ?thesis
        by (simp add: nm Some row ad cd del: less_prod_simp less_eq_prod_simp)
    next
      case False
      with big show ?thesis
        by (simp add: nm Some row ad cd del: less_prod_simp less_eq_prod_simp)
    qed
  qed
  have 3: "\<forall>n d el h. DaysCheckpoint n d el h \<in> set (new_mail em (snd (update em today name hours start)))
          \<longrightarrow> n = name \<and> d = CHECKPOINT_DAYS \<and> el = timedelta_days today start \<and> h = hours"
    by (auto simp: nm cd split: option.splits sum.splits if_splits)
  have 4: "\<forall>ph s t t'. start = (s, 0) \<and> rows (db em) name = Some (ph, (s + 364, t)) \<and> today = (s + 366, t')
          \<longrightarrow> length (new_mail em (snd (update em today name hours start))) = 1
             \<and> ((\<forall>c\<in>set CHECKPOINT_HOURS. \<not> (ph < of_int c \<and> of_int c \<le> hours))
                  \<longrightarrow> new_mail em (snd (update em today name hours start))
                        = [DaysCheckpoint name 365 366 hours])"
  proof (intro allI impI)
    fix ph s t t'
    assume a: "start = (s, 0) \<and> rows (db em) name = Some (ph, (s + 364, t)) \<and> today = (s + 366, t')"
    then have "s + 365 \<le> MAXORDINAL" "1 \<le> s" using assms(2,3) by simp_all
    with a show "length (new_mail em (snd (update em today name hours start))) = 1
             \<and> ((\<forall>c\<in>set CHECKPOINT_HOURS. \<not> (ph < of_int c \<and> of_int c \<le> hours))
                  \<longrightarrow> new_mail em (snd (update em today name hours start))
                        = [DaysCheckpoint name 365 366 hours])"
      by (simp add: nm add_days_def ch timedelta_days_def)
  qed
  have 5: "\<forall>ph s t t' n d el h. start = (s, 0) \<and> rows (db em) name = Some (ph, (s + 366, t)) \<and> today = (s + 367, t')
          \<longrightarrow> DaysCheckpoint n d el h \<notin> set (new_mail em (snd (update em today name hours start)))"
  proof (intro allI impI)
    fix ph s t t' n d el h
    assume a: "start = (s, 0) \<and> rows (db em) name = Some (ph, (s + 366, t)) \<and> today = (s + 367, t')"
    then have "s + 365 \<le> MAXORDINAL" "1 \<le> s" using assms(2,3) by simp_all
    with a show "DaysCheckpoint n d el h \<notin> set (new_mail em (snd (update em today name hours start)))"
      by (simp add: nm add_days_def)
  qed
  have 6: "length (new_mail em (snd (update em today name hours start))) \<le> 1"
    by (simp add: nm split: option.split sum.split)
  from cd 2 3 4 5 6 show ?thesis by blast
qed

theorem day_checkpoint_rule_witness:
  "(dry_run \<lparr>db = \<lparr>rows = [''P_1234'' \<mapsto> (50, (738364, 7))], committed = Map.empty\<rparr>,
              dry_run = True, smtp_ok = False, trace = []\<rparr>
    \<or> smtp_ok \<lparr>db = \<lparr>rows = [''P_1234'' \<mapsto> (50, (738364, 7))], committed = Map.empty\<rparr>,
              dry_run = True, smtp_ok = False, trace = []\<rparr>)
   \<and> 1 \<le> fst (738000 :: int, 0 :: nat) \<and> fst (738366 :: int, 9 :: nat) \<le> MAXORDINAL
   \<and> new_mail \<lparr>db = \<lparr>rows = [''P_1234'' \<mapsto> (50, (738364, 7))], committed = Map.empty\<rparr>,
              dry_run = True, smtp_ok = False, trace = []\<rparr>
        (snd (update \<lparr>db = \<lparr>rows = [''P_1234'' \<mapsto> (50, (738364, 7))], committed = Map.empty\<rparr>,
              dry_run = True, smtp_ok = False, trace = []\<rparr> (738366, 9) ''P_1234'' 60 (738000, 0)))
     = [DaysCheckpoint ''P_1234'' 365 366 60]"
proof -
  let ?E = "\<lparr>db = \<lparr>rows = [''P_1234'' \<mapsto> (50::rat, (738364::int, 7::nat))], committed = Map.empty\<rparr>,
              dry_run = True, smtp_ok = False, trace = []\<rparr>"
  have ok: "dry_run ?E \<or> smtp_ok ?E" by simp
  have v1: "1 \<le> fst (738000 :: int, 0 :: nat)" by simp
  have v2: "fst (738366 :: int, 9 :: nat) \<le> MAXORDINAL" by (simp add: MAXORDINAL_def)
  have r: "(738000 :: int, 0 :: nat) = (738000, 0) \<and> rows (db ?E) ''P_1234'' = Some (50, (738000 + 364, 7))
      \<and> (738366 :: int, 9 :: nat) = (738000 + 366, 9)" by simp
  have nc: "\<forall>c\<in>set CHECKPOINT_HOURS. \<not> (50 < (of_int c :: rat) \<and> of_int c \<le> (60 :: rat))"
    by (simp add: CHECKPOINT_HOURS_def)
  note d = day_checkpoint_rule[OF ok v1 v2, where name = "''P_1234''" and hours = 60,
      THEN conjunct2, THEN conjunct2, THEN conjunct2, THEN conjunct1, rule_format,
      of 738000 50 7 9]
  have r1: "(738000 :: int, 0 :: nat) = (738000, 0) \<and> rows (db ?E) ''P_1234'' = Some (50, (738000 + 364, 7))
      \<and> (738366 :: int, 9 :: nat) = (738000 + 366, 9)" by simp
  from d[OF r1] nc have "new_mail ?E (snd (update ?E (738366, 9) ''P_1234'' 60 (738000, 0)))
                        = [DaysCheckpoint ''P_1234'' 365 366 60]"
    by blast
  with ok v1 v2 show ?thesis by blast
qed

lemma checkpoint_loop_db:
  "checkpoint_loop em name ph hours el cps = Inr (em1, s) \<Longrightarrow> db em1 = db em"
  by (induction cps) (auto simp: send_email_def split: if_splits sum.splits)

lemma day_checkpoint_db:
  "day_checkpoint em s today name hours start pd el = Inr (em2, s2) \<Longrightarrow> db em2 = db em"
  by (auto simp: day_checkpoint_def send_email_def split: option.splits if_splits sum.splits)

lemma update_Inl:
  "update em today name hours start = (Inl e, em1) \<Longrightarrow> db em1 = db em"
  by (auto simp: update_def Let_def split: sum.splits prod.splits option.splits
      dest: checkpoint_loop_db day_checkpoint_db)

lemma update_Inr:
  "update em today name hours start = (Inr b, em') \<Longrightarrow>
     rows (db em') name = Some (hours, today) \<and> committed (db em') name = Some (hours, today)"
  by (auto simp: update_def Let_def db_commit_def db_setitem_def split: sum.splits prod.splits option.splits)

text \<open>
  C5. When \<^verbatim>\<open>update\<close> returns, the row of the project holds the current hours and the
  timestamp of the call, and the commit has made it durable, whatever was stored before and
  whether or not an e-mail went out. When \<^verbatim>\<open>update\<close> raises, the database is as it was
  before the call; this is the case when an e-mail is due (an hour checkpoint or the day
  checkpoint) and the transport refuses it: the call raises \<^verbatim>\<open>SMTPException\<close>.
\<close>

theorem update_persists_state:
  "(\<forall>b. fst (update em today name hours start) = Inr b
        \<longrightarrow> rows (db (snd (update em today name hours start))) name = Some (hours, today)
          \<and> committed (db (snd (update em today name hours start))) name = Some (hours, today))
   \<and> (\<forall>e. fst (update em today name hours start) = Inl e
        \<longrightarrow> db (snd (update em today name hours start)) = db em)
   \<and> (\<forall>ph ts. \<not> dry_run em \<and> \<not> smtp_ok em \<and> rows (db em) name = Some (ph, ts)
              \<and> (\<exists>c\<in>set CHECKPOINT_HOURS. ph < of_int c \<and> of_int c \<le> hours)
        \<longrightarrow> update em today name hours start = (Inl SMTPException, em))
   \<and> (\<forall>ph ts cp. \<not> dry_run em \<and> \<not> smtp_ok em \<and> rows (db em) name = Some (ph, ts)
              \<and> add_days start CHECKPOINT_DAYS = Inr cp \<and> (fst ts, 0) < cp \<and> cp \<le> today
        \<longrightarrow> update em today name hours start = (Inl SMTPException, em))"
proof -
  have 1: "\<forall>b. fst (update em today name hours start) = Inr b
        \<longrightarrow> rows (db (snd (update em today name hours start))) name = Some (hours, today)
          \<and> committed (db (snd (update em today name hours start))) name = Some (hours, today)"
    using update_Inr[of em today name hours start] by (metis prod.collapse)
  have 2: "\<forall>e. fst (update em today name hours start) = Inl e
        \<longrightarrow> db (snd (update em today name hours start)) = db em"
    using update_Inl[of em today name hours start] by (metis prod.collapse)
  have 3: "\<forall>ph ts. \<not> dry_run em \<and> \<not> smtp_ok em \<and> rows (db em) name = Some (ph, ts)
              \<and> (\<exists>c\<in>set CHECKPOINT_HOURS. ph < of_int c \<and> of_int c \<le> hours)
        \<longrightarrow> update em today name hours start = (Inl SMTPException, em)"
    by (auto simp: update_def Let_def db_getitem_def CHECKPOINT_HOURS_def send_email_fail)
  have 4: "\<forall>ph ts cp. \<not> dry_run em \<and> \<not> smtp_ok em \<and> rows (db em) name = Some (ph, ts)
              \<and> add_days start CHECKPOINT_DAYS = Inr cp \<and> (fst ts, 0) < cp \<and> cp \<le> today
        \<longrightarrow> update em today name hours start = (Inl SMTPException, em)"
  proof (intro allI impI)
    fix ph ts cp
    assume a: "\<not> dry_run em \<and> \<not> smtp_ok em \<and> rows (db em) name = Some (ph, ts)
              \<and> add_days start CHECKPOINT_DAYS = Inr cp \<and> (fst ts, 0) < cp \<and> cp \<le> today"
    show "update em today name hours start = (Inl SMTPException, em)"
    proof (cases "\<exists>c\<in>set CHECKPOINT_HOURS. ph < of_int c \<and> of_int c \<le> hours")
      case True
      with 3 a show ?thesis by blast
    next
      case False
      with a show ?thesis
        by (simp add: update_def Let_def db_getitem_def CHECKPOINT_HOURS_def day_checkpoint_def
              send_email_fail)
    qed
  qed
  from 1 2 3 4 show ?thesis by blast
qed

theorem update_persists_state_witness:
  "fst (update \<lparr>db = \<lparr>rows = [''P_1234'' \<mapsto> (90, (738000, 0))], committed = Map.empty\<rparr>,
              dry_run = False, smtp_ok = True, trace = []\<rparr> (738100, 5) ''P_1234'' 105 (738000, 0))
     = Inr True
   \<and> committed (db (snd (update \<lparr>db = \<lparr>rows = [''P_1234'' \<mapsto> (90, (738000, 0))], committed = Map.empty\<rparr>,
              dry_run = False, smtp_ok = True, trace = []\<rparr> (738100, 5) ''P_1234'' 105 (738000, 0))))
        ''P_1234'' = Some (105, (738100, 5))
   \<and> fst (update \<lparr>db = \<lparr>rows = [''P_1234'' \<mapsto> (90, (738000, 0))], committed = Map.empty\<rparr>,
              dry_run = False, smtp_ok = False, trace = []\<rparr> (738100, 5) ''P_1234'' 105 (738000, 0))
     = Inl SMTPException
   \<and> db (snd (update \<lparr>db = \<lparr>rows = [''P_1234'' \<mapsto> (90, (738000, 0))], committed = Map.empty\<rparr>,
              dry_run = False, smtp_ok = False, trace = []\<rparr> (738100, 5) ''P_1234'' 105 (738000, 0)))
     = \<lparr>rows = [''P_1234'' \<mapsto> (90, (738000, 0))], committed = Map.empty\<rparr>"
proof -
  let ?D = "\<lparr>rows = [''P_1234'' \<mapsto> (90::rat, (738000::int, 0::nat))], committed = Map.empty\<rparr>"
  let ?E = "\<lparr>db = ?D, dry_run = False, smtp_ok = True, trace = []\<rparr>"
  let ?F = "\<lparr>db = ?D, dry_run = False, smtp_ok = False, trace = []\<rparr>"
  have a: "fst (update ?E (738100, 5) ''P_1234'' 105 (738000, 0)) = Inr True"
    by (simp add: update_def Let_def db_getitem_def day_checkpoint_def CHECKPOINT_HOURS_def send_email_def)
  have b: "committed (db (snd (update ?E (738100, 5) ''P_1234'' 105 (738000, 0)))) ''P_1234'' = Some (105, (738100, 5))"
    using update_persists_state[of ?E "(738100, 5)" "''P_1234''" 105 "(738000, 0)"] a by blast
  have c: "fst (update ?F (738100, 5) ''P_1234'' 105 (738000, 0)) = Inl SMTPException"
    by (simp add: update_def Let_def db_getitem_def day_checkpoint_def CHECKPOINT_HOURS_def send_email_def)
  have d: "db (snd (update ?F (738100, 5) ''P_1234'' 105 (738000, 0))) = db ?F"
    using update_persists_state[of ?F "(738100, 5)" "''P_1234''" 105 "(738000, 0)"] c by blast
  from a b c d show ?thesis by simp
qed

section \<open>Properties of the report renderer\<close>

lemma py_float_error: "py_float s = Inl e \<Longrightarrow> e = ValueError"
  by (auto simp: py_float_def Let_def split: list.splits if_splits)

lemma completion_percent_total: "\<exists>p. completion_percent h b = Inr p"
  by (auto simp: completion_percent_def py_div_def)

lemma update_report_page_error:
  "update_report_page force space_name text work_units budget = Inl e \<Longrightarrow> e = ValueError"
  using completion_percent_total[of "work_hours work_units" budget]
  by (auto simp: update_report_page_def Let_def
      split: option.splits sum.splits if_splits prod.splits dest: py_float_error)

lemma update_report_page_changed:
  assumes "update_report_page force space_name text work_units budget = Inr (body, True)"
  shows "\<exists>percent. completion_percent (work_hours work_units) budget = Inr percent
           \<and> body = before_marker text @ nl
                @ make_report space_name percent (work_hours work_units) budget work_units"
  using assms
  by (auto simp: update_report_page_def Let_def before_marker_def
      split: option.splits sum.splits if_splits prod.splits)

text \<open>
  C8. Budget-zero safety. With a budget of zero or less the completion percentage is 0
  without any division, \<^verbatim>\<open>update_report_page\<close> never raises \<^verbatim>\<open>ZeroDivisionError\<close>, every
  report it generates is built with the percentage 0, and that percentage is printed as
  \<^verbatim>\<open>0.0%\<close>.
\<close>

theorem budget_zero_safety:
  assumes "budget \<le> 0"
  shows "completion_percent (work_hours work_units) budget = Inr 0
   \<and> update_report_page force space_name text work_units budget \<noteq> Inl ZeroDivisionError
   \<and> (\<forall>body. update_report_page force space_name text work_units budget = Inr (body, True)
         \<longrightarrow> body = before_marker text @ nl
                @ make_report space_name 0 (work_hours work_units) budget work_units)
   \<and> format_percent 0 = ''0.0%''"
proof -
  have 1: "completion_percent (work_hours work_units) budget = Inr 0"
    using assms by (simp add: completion_percent_def)
  have 2: "update_report_page force space_name text work_units budget \<noteq> Inl ZeroDivisionError"
    using update_report_page_error[of force space_name "text" work_units budget ZeroDivisionError]
    by auto
  have 3: "\<forall>body. update_report_page force space_name text work_units budget = Inr (body, True)
         \<longrightarrow> body = before_marker text @ nl
                @ make_report space_name 0 (work_hours work_units) budget work_units"
    using update_report_page_changed[of force space_name "text" work_units budget] 1 by auto
  have 4: "format_percent 0 = ''0.0%''"
    by code_simp
  from 1 2 3 4 show ?thesis by blast
qed

theorem budget_zero_safety_witness:
  "(0 :: rat) \<le> 0
   \<and> completion_percent (work_hours [\<lparr>wu_date = \<lparr>d_year = 2024, d_month = 1, d_day = 5\<rparr>, wu_hours = 2\<rparr>]) 0 = Inr 0
   \<and> update_report_page False ''X'' ''Notes''
        [\<lparr>wu_date = \<lparr>d_year = 2024, d_month = 1, d_day = 5\<rparr>, wu_hours = 2\<rparr>] 0
      \<noteq> Inl ZeroDivisionError"
  using budget_zero_safety[of 0 "[\<lparr>wu_date = \<lparr>d_year = 2024, d_month = 1, d_day = 5\<rparr>, wu_hours = 2\<rparr>]"
      False "''X''" "''Notes''"]
  by simp

text \<open>
  C10. The guard compares the two totals only. Without \<^verbatim>\<open>force\<close>, when the text from the
  first marker on has a leftmost match of the pattern whose two numbers are within 0.01 of
  the sum of the hours and of the budget, the page is returned as it is and the flag is
  \<open>False\<close>, whatever the work units behind the sum are: the witness has two lists with the
  same total and different months.
\<close>

theorem guard_compares_totals_only:
  assumes "str_find marker text = Some i"
    and "re_search (drop i text) = Some (g1, g2)"
    and "py_float g1 = Inr x" and "py_float g2 = Inr y"
    and "\<bar>work_hours work_units - x\<bar> < 1 / 100" and "\<bar>y - budget\<bar> < 1 / 100"
  shows "update_report_page False space_name text work_units budget = Inr (text, False)"
  using assms by (simp add: update_report_page_def)

theorem guard_compares_totals_only_witness:
  "update_report_page False ''X'' (''Notes<hr />'' @ nl @ ''<p>5.00 out of 10 hours used.</p>'')
     [\<lparr>wu_date = \<lparr>d_year = 2024, d_month = 1, d_day = 5\<rparr>, wu_hours = 5\<rparr>] 10
     = Inr (''Notes<hr />'' @ nl @ ''<p>5.00 out of 10 hours used.</p>'', False)
   \<and> update_report_page False ''X'' (''Notes<hr />'' @ nl @ ''<p>5.00 out of 10 hours used.</p>'')
     [\<lparr>wu_date = \<lparr>d_year = 2024, d_month = 2, d_day = 1\<rparr>, wu_hours = 2\<rparr>,
      \<lparr>wu_date = \<lparr>d_year = 2024, d_month = 3, d_day = 1\<rparr>, wu_hours = 3\<rparr>] 10
     = Inr (''Notes<hr />'' @ nl @ ''<p>5.00 out of 10 hours used.</p>'', False)
   \<and> month_totals [\<lparr>wu_date = \<lparr>d_year = 2024, d_month = 1, d_day = 5\<rparr>, wu_hours = 5\<rparr>]
       = [((2024, 1), 5)]
   \<and> month_totals [\<lparr>wu_date = \<lparr>d_year = 2024, d_month = 2, d_day = 1\<rparr>, wu_hours = 2\<rparr>,
                   \<lparr>wu_date = \<lparr>d_year = 2024, d_month = 3, d_day = 1\<rparr>, wu_hours = 3\<rparr>]
       = [((2024, 3), 3), ((2024, 2), 2)]"
proof -
  let ?t = "''Notes<hr />'' @ nl @ ''<p>5.00 out of 10 hours used.</p>''"
  let ?A = "[\<lparr>wu_date = \<lparr>d_year = 2024, d_month = 1, d_day = 5\<rparr>, wu_hours = 5\<rparr>]"
  let ?B = "[\<lparr>wu_date = \<lparr>d_year = 2024, d_month = 2, d_day = 1\<rparr>, wu_hours = 2\<rparr>,
      \<lparr>wu_date = \<lparr>d_year = 2024, d_month = 3, d_day = 1\<rparr>, wu_hours = 3\<rparr>]"
  have h1: "str_find marker ?t = Some 5" by code_simp
  have h2: "re_search (drop 5 ?t) = Some (''5.00'', ''10'')" by code_simp
  have h3: "py_float ''5.00'' = Inr 5" by code_simp
  have h4: "py_float ''10'' = Inr 10" by code_simp
  have a5: "\<bar>work_hours ?A - 5\<bar> < 1 / 100" by (simp add: work_hours_def)
  have b5: "\<bar>work_hours ?B - 5\<bar> < 1 / 100" by (simp add: work_hours_def)
  have h6: "\<bar>10 - (10 :: rat)\<bar> < 1 / 100" by simp
  have a: "update_report_page False ''X'' ?t ?A 10 = Inr (?t, False)"
    by (rule guard_compares_totals_only[OF h1 h2 h3 h4 a5 h6])
  have b: "update_report_page False ''X'' ?t ?B 10 = Inr (?t, False)"
    by (rule guard_compares_totals_only[OF h1 h2 h3 h4 b5 h6])
  have c: "month_totals ?A = [((2024, 1), 5)]" by code_simp
  have d: "month_totals ?B = [((2024, 3), 3), ((2024, 2), 2)]" by code_simp
  from a b c d show ?thesis by blast
qed

subsection \<open>The marker and the head of the report\<close>

lemma prefix_skip_char:
  "prefix s (x @ c # y) \<Longrightarrow> c \<notin> set s \<Longrightarrow> prefix s x"
  by (auto simp: prefix_append prefix_Cons)

lemma str_find_append_char:
  assumes "str_find sub pre = None" and "c \<notin> set sub" and "sub \<noteq> []"
  shows "str_find sub (pre @ c # rest) = map_option (\<lambda>k. length pre + 1 + k) (str_find sub rest)"
  using assms
proof (induction pre)
  case Nil
  then have "\<not> prefix sub (c # rest)"
    by (cases sub) (auto simp: prefix_Cons)
  then show ?case by (simp add: option.map_comp comp_def)
next
  case (Cons a pre)
  from Cons.prems(1) have np: "\<not> prefix sub (a # pre)" and n: "str_find sub pre = None"
    by (auto split: if_splits)
  have "\<not> prefix sub ((a # pre) @ c # rest)"
    using np prefix_skip_char[of sub "a # pre" c rest] Cons.prems(2) by blast
  then show ?case
    using Cons.IH[OF n Cons.prems(2) Cons.prems(3)]
    by (simp add: option.map_comp comp_def)
qed

lemma str_find_take:
  "str_find sub s = Some i \<Longrightarrow> sub \<noteq> [] \<Longrightarrow> str_find sub (take i s) = None"
proof (induction s arbitrary: i)
  case Nil
  then show ?case by (simp split: if_splits)
next
  case (Cons c cs)
  show ?case
  proof (cases "prefix sub (c # cs)")
    case True
    with Cons.prems show ?thesis by simp
  next
    case False
    with Cons.prems obtain k where k: "str_find sub cs = Some k" "i = Suc k" by auto
    have "\<not> prefix sub (c # take k cs)"
      using False by (metis Cons_prefix_Cons prefix_order.trans take_is_prefix)
    then show ?thesis using Cons.IH[OF k(1) Cons.prems(2)] k by simp
  qed
qed

lemma str_find_le: "str_find sub s = Some i \<Longrightarrow> i \<le> length s"
  by (induction s arbitrary: i) (auto split: if_splits)

lemma str_find_before_marker: "str_find marker (before_marker s) = None"
  by (auto simp: before_marker_def marker_def split: option.splits dest: str_find_take)

lemma before_marker_new_body:
  "before_marker (before_marker s @ nl @ nl @ marker @ rest) = before_marker s @ nl @ nl"
proof -
  define b where "b = before_marker s"
  define t where "t = b @ nl @ nl @ marker @ rest"
  have m: "marker \<noteq> []" "CHR 0x0A \<notin> set marker" by (simp_all add: marker_def)
  have bn: "str_find marker b = None" by (simp add: b_def str_find_before_marker)
  have a: "str_find marker (CHR 0x0A # marker @ rest) = Some 1"
    using str_find_append_char[of marker "[]" "CHR 0x0A" "marker @ rest"] m
    by (simp add: marker_def)
  have "str_find marker (b @ CHR 0x0A # (CHR 0x0A # marker @ rest)) = Some (length b + 2)"
    using str_find_append_char[OF bn m(2) m(1), of "CHR 0x0A # marker @ rest"] a
    by simp
  then have "str_find marker t = Some (length b + 2)"
    by (simp add: t_def nl_def)
  then have "before_marker t = take (length b + 2) t"
    by (simp add: before_marker_def)
  also have "\<dots> = b @ nl @ nl"
    by (simp add: t_def nl_def)
  finally show ?thesis by (simp add: t_def b_def)
qed

lemma split_nl_no_newline: "CHR 0x0A \<notin> set a \<Longrightarrow> split_nl a = [a]"
  by (induction a) auto

lemma split_nl_append:
  "CHR 0x0A \<notin> set a \<Longrightarrow> split_nl (a @ CHR 0x0A # rest) = a # split_nl rest"
  by (induction a) auto

lemma digit_char_in: "n < 10 \<Longrightarrow> digit_char n \<in> set ''0123456789''"
  unfolding digit_char_def by (rule nth_mem) simp

lemma show_nat_chars: "set (show_nat n) \<subseteq> set ''0123456789''"
proof (induction n rule: show_nat.induct)
  case (1 n)
  show ?case
  proof (cases "n < 10")
    case True
    have "show_nat n = [digit_char n]" using True by (subst show_nat.simps) simp
    then show ?thesis using digit_char_in[OF True] by simp
  next
    case False
    have e: "show_nat n = show_nat (n div 10) @ [digit_char (n mod 10)]"
      using False by (subst show_nat.simps) simp
    have "n mod 10 < 10" by simp
    from digit_char_in[OF this] 1[OF False] show ?thesis
      unfolding e by simp
  qed
qed

lemma show_nat_no_newline: "CHR 0x0A \<notin> set (show_nat k)"
proof
  assume "CHR 0x0A \<in> set (show_nat k)"
  with show_nat_chars[of k] have "CHR 0x0A \<in> set ''0123456789''" by blast
  then show False by simp
qed

lemma format_f_no_newline: "CHR 0x0A \<notin> set (format_f d x)"
  by (simp add: format_f_def Let_def zero_pad_def show_nat_no_newline)

lemma format_percent_no_newline: "CHR 0x0A \<notin> set (format_percent x)"
  by (simp add: format_percent_def format_f_no_newline)

lemma split_report_template:
  assumes "CHR 0x0A \<notin> set name"
  shows "split_nl (report_template name p h b) =
     [[], ''            '' @ marker,
      ''            <h2>Project '' @ name @ '' is '' @ format_percent p @ '' complete</h2>'',
      ''            <p>'' @ format_f 2 h @ '' out of '' @ format_f 0 b @ '' hours used.</p>'',
      ''        '']"
proof -
  have l4: "split_nl ''        '' = [''        '']"
    by (rule split_nl_no_newline) simp
  have l3: "split_nl ((''            <p>'' @ format_f 2 h @ '' out of '' @ format_f 0 b @ '' hours used.</p>'')
              @ CHR 0x0A # ''        '')
           = (''            <p>'' @ format_f 2 h @ '' out of '' @ format_f 0 b @ '' hours used.</p>'') # split_nl ''        ''"
    by (rule split_nl_append) (simp add: format_f_no_newline)
  have l2: "split_nl ((''            <h2>Project '' @ name @ '' is '' @ format_percent p @ '' complete</h2>'')
              @ CHR 0x0A # rest)
           = (''            <h2>Project '' @ name @ '' is '' @ format_percent p @ '' complete</h2>'') # split_nl rest" for rest
    by (rule split_nl_append) (simp add: format_percent_no_newline assms)
  have l1: "split_nl ((''            '' @ marker) @ CHR 0x0A # rest) = (''            '' @ marker) # split_nl rest" for rest
    by (rule split_nl_append) (simp add: marker_def)
  have l0: "split_nl ([] @ CHR 0x0A # rest) = [] # split_nl rest" for rest
    by (rule split_nl_append) simp
  have "report_template name p h b =
      [] @ CHR 0x0A # ((''            '' @ marker) @ CHR 0x0A #
        ((''            <h2>Project '' @ name @ '' is '' @ format_percent p @ '' complete</h2>'') @ CHR 0x0A #
          ((''            <p>'' @ format_f 2 h @ '' out of '' @ format_f 0 b @ '' hours used.</p>'') @ CHR 0x0A # ''        '')))"
    by (simp add: report_template_def nl_def)
  then show ?thesis
    by (simp only: l0 l1 l2 l3 l4)
qed

lemma dedent_report_template:
  assumes "CHR 0x0A \<notin> set name"
  shows "dedent (report_template name p h b) =
     nl @ marker @ nl
     @ ''<h2>Project '' @ name @ '' is '' @ format_percent p @ '' complete</h2>'' @ nl
     @ ''<p>'' @ format_f 2 h @ '' out of '' @ format_f 0 b @ '' hours used.</p>'' @ nl"
  by (simp add: dedent_def split_report_template[OF assms] is_blank_def marker_def Let_def)

text \<open>
  C9. The claim says that a changed body has the same text before its first marker as the
  existing body. The new body is \<^verbatim>\<open>text + "\n" + report\<close>, and the report itself starts
  with a line feed before its marker, so two line feeds are added in front of the marker:
  a page \<^verbatim>\<open>Notes\<close> becomes \<^verbatim>\<open>Notes\n\n<hr />...\<close>.
\<close>

theorem render_frame_counterexample:
  "update_report_page False ''X'' ''Notes'' [] 0
     = Inr (''Notes'' @ nl @ nl @ ''<hr />'' @ nl @ ''<h2>Project X is 0.0% complete</h2>'' @ nl
            @ ''<p>0.00 out of 0 hours used.</p>'' @ nl @ ''<p><table>'' @ nl
            @ ''<tr><th>Date</th><th>Hours spent</th></tr>'' @ nl @ ''</table></p>'', True)
   \<and> before_marker (''Notes'' @ nl @ nl @ ''<hr />'' @ nl @ ''<h2>Project X is 0.0% complete</h2>'' @ nl
            @ ''<p>0.00 out of 0 hours used.</p>'' @ nl @ ''<p><table>'' @ nl
            @ ''<tr><th>Date</th><th>Hours spent</th></tr>'' @ nl @ ''</table></p>'')
       = ''Notes'' @ nl @ nl
   \<and> before_marker ''Notes'' = ''Notes''
   \<and> ''Notes'' @ nl @ nl \<noteq> ''Notes''"
  by code_simp

text \<open>
  C9, as the code has it. Whenever the flag is \<open>True\<close>, the new body is the existing
  body's part before its first marker (the whole body when there is none), a line feed and
  the freshly generated report, so the old part is a prefix of the new body; and for a
  space name without a line feed, the part of the new body before its first marker is the
  old part followed by two line feeds.
\<close>

theorem render_frame:
  assumes "update_report_page force space_name text work_units budget = Inr (body, True)"
  shows "(\<exists>percent. completion_percent (work_hours work_units) budget = Inr percent
            \<and> body = before_marker text @ nl
                 @ make_report space_name percent (work_hours work_units) budget work_units)
   \<and> prefix (before_marker text) body
   \<and> (CHR 0x0A \<notin> set space_name \<longrightarrow> before_marker body = before_marker text @ nl @ nl)"
proof -
  from update_report_page_changed[OF assms] obtain percent where
    p: "completion_percent (work_hours work_units) budget = Inr percent"
    and b: "body = before_marker text @ nl
                 @ make_report space_name percent (work_hours work_units) budget work_units"
    by blast
  have 2: "prefix (before_marker text) body" by (simp add: b)
  have 3: "before_marker body = before_marker text @ nl @ nl" if n: "CHR 0x0A \<notin> set space_name"
  proof -
    obtain rest where "make_report space_name percent (work_hours work_units) budget work_units
        = nl @ marker @ rest"
      by (simp add: make_report_def dedent_report_template[OF n])
    then have "body = before_marker text @ nl @ nl @ marker @ rest" by (simp add: b)
    then show ?thesis by (simp only: before_marker_new_body)
  qed
  from p b 2 3 show ?thesis by blast
qed

theorem render_frame_witness:
  "update_report_page True ''X'' ''Intro<hr />old report'' [] 0
     = Inr (''Intro'' @ nl @ nl @ ''<hr />'' @ nl @ ''<h2>Project X is 0.0% complete</h2>'' @ nl
            @ ''<p>0.00 out of 0 hours used.</p>'' @ nl @ ''<p><table>'' @ nl
            @ ''<tr><th>Date</th><th>Hours spent</th></tr>'' @ nl @ ''</table></p>'', True)
   \<and> before_marker (''Intro'' @ nl @ nl @ ''<hr />'' @ nl @ ''<h2>Project X is 0.0% complete</h2>'' @ nl
            @ ''<p>0.00 out of 0 hours used.</p>'' @ nl @ ''<p><table>'' @ nl
            @ ''<tr><th>Date</th><th>Hours spent</th></tr>'' @ nl @ ''</table></p>'')
       = ''Intro'' @ nl @ nl"
proof -
  let ?b = "''Intro'' @ nl @ nl @ ''<hr />'' @ nl @ ''<h2>Project X is 0.0% complete</h2>'' @ nl
            @ ''<p>0.00 out of 0 hours used.</p>'' @ nl @ ''<p><table>'' @ nl
            @ ''<tr><th>Date</th><th>Hours spent</th></tr>'' @ nl @ ''</table></p>''"
  have a: "update_report_page True ''X'' ''Intro<hr />old report'' [] 0 = Inr (?b, True)"
    by code_simp
  have n: "CHR 0x0A \<notin> set ''X''" by simp
  have o: "before_marker ''Intro<hr />old report'' = ''Intro''" by code_simp
  from render_frame[OF a] n have "before_marker ?b = before_marker ''Intro<hr />old report'' @ nl @ nl"
    by blast
  with o a show ?thesis by simp
qed

subsection \<open>The table of months\<close>

lemma dropWhile_desc_less:
  fixes key :: "'a \<Rightarrow> 'k::linorder"
  assumes "sorted_wrt (\<lambda>a b. key b \<le> key a) xs" and "\<forall>y\<in>set xs. key y \<le> k"
  shows "\<forall>y\<in>set (dropWhile (\<lambda>y. key y = k) xs). key y < k"
  using assms
proof (induction xs)
  case Nil
  then show ?case by simp
next
  case (Cons y ys)
  show ?case
  proof (cases "key y = k")
    case True
    with Cons show ?thesis by simp
  next
    case False
    with Cons.prems have "key y < k" by auto
    moreover from Cons.prems(1) have "\<forall>z\<in>set ys. key z \<le> key y" by simp
    ultimately show ?thesis using False by auto
  qed
qed

lemma sorted_wrt_dropWhile_desc:
  "sorted_wrt P xs \<Longrightarrow> sorted_wrt P (dropWhile Q xs)"
  by (induction xs) auto

lemma filter_eq_takeWhile:
  "\<forall>y\<in>set (dropWhile P xs). \<not> P y \<Longrightarrow> filter P xs = takeWhile P xs"
proof (induction xs)
  case Nil
  show ?case by simp
next
  case (Cons a as)
  show ?case
  proof (cases "P a")
    case True
    then have "dropWhile P (a # as) = dropWhile P as" by simp
    with Cons.prems have "\<forall>y\<in>set (dropWhile P as). \<not> P y" by (simp only:)
    then have "filter P as = takeWhile P as" by (rule Cons.IH)
    with True show ?thesis by simp
  next
    case False
    then have "dropWhile P (a # as) = a # as" by simp
    with Cons.prems have "\<forall>y\<in>set (a # as). \<not> P y" by (simp only:)
    then have "filter P (a # as) = []" by (rule filter_False)
    moreover from False have "takeWhile P (a # as) = []" by simp
    ultimately show ?thesis by (simp only:)
  qed
qed

lemma filter_skip_takeWhile:
  "\<forall>y\<in>set (takeWhile P xs). \<not> Q y \<Longrightarrow> filter Q xs = filter Q (dropWhile P xs)"
  by (induction xs) auto

lemma image_split_takeWhile:
  "f ` set xs = f ` set (takeWhile P xs) \<union> f ` set (dropWhile P xs)"
  using set_append[of "takeWhile P xs" "dropWhile P xs", unfolded takeWhile_dropWhile_id]
  by (simp only: image_Un)

lemma insert_absorb_sub: "A \<subseteq> {a} \<Longrightarrow> insert a (A \<union> B) = insert a B"
  by auto

lemma groupby_desc:
  fixes key :: "'a \<Rightarrow> 'k::linorder"
  assumes "sorted_wrt (\<lambda>a b. key b \<le> key a) xs"
  shows "sorted_wrt (\<lambda>a b. b < a) (map fst (groupby key xs))
       \<and> set (map fst (groupby key xs)) = key ` set xs
       \<and> (\<forall>p\<in>set (groupby key xs). snd p = filter (\<lambda>x. key x = fst p) xs)"
  using assms
proof (induction key xs rule: groupby.induct)
  case (1 key)
  then show ?case by simp
next
  case (2 key x xs)
  define P where "P = (\<lambda>y. key y = key x)"
  define T where "T = takeWhile P xs"
  define D where "D = dropWhile P xs"
  have g: "groupby key (x # xs) = (key x, x # T) # groupby key D"
    by (simp add: P_def T_def D_def)
  from "2.prems" have sx: "sorted_wrt (\<lambda>a b. key b \<le> key a) xs" and le: "\<forall>y\<in>set xs. key y \<le> key x"
    by simp_all
  have sD: "sorted_wrt (\<lambda>a b. key b \<le> key a) D"
    unfolding D_def by (rule sorted_wrt_dropWhile_desc[OF sx])
  have lD: "\<forall>y\<in>set D. key y < key x"
    unfolding D_def P_def by (rule dropWhile_desc_less[OF sx le])
  have eT: "\<forall>y\<in>set T. P y"
    unfolding T_def by (blast dest: set_takeWhileD)
  have IH: "sorted_wrt (\<lambda>a b. b < a) (map fst (groupby key D))
       \<and> set (map fst (groupby key D)) = key ` set D
       \<and> (\<forall>p\<in>set (groupby key D). snd p = filter (\<lambda>x. key x = fst p) D)"
    using "2.IH" sD unfolding D_def P_def by blast
  from IH have IH1: "sorted_wrt (\<lambda>a b. b < a) (map fst (groupby key D))" by (rule conjunct1)
  from IH have IH2: "set (map fst (groupby key D)) = key ` set D" by (rule conjunct2[THEN conjunct1])
  from IH have IH3: "\<forall>p\<in>set (groupby key D). snd p = filter (\<lambda>x. key x = fst p) D"
    by (rule conjunct2[THEN conjunct2])
  have nD: "\<forall>y\<in>set (dropWhile P xs). \<not> P y"
    using lD unfolding D_def P_def by auto
  have f1: "filter P xs = T"
    unfolding T_def by (rule filter_eq_takeWhile[OF nD])
  have f2: "filter (\<lambda>y. key y = kk) xs = filter (\<lambda>y. key y = kk) D" if "kk < key x" for kk
  proof -
    have "\<forall>y\<in>set (takeWhile P xs). \<not> key y = kk"
    proof
      fix y assume "y \<in> set (takeWhile P xs)"
      then have "P y" by (rule set_takeWhileD[THEN conjunct2])
      then have "key y = key x" by (simp add: P_def)
      with that show "\<not> key y = kk" by simp
    qed
    then show ?thesis unfolding D_def by (rule filter_skip_takeWhile)
  qed
  have kD: "\<forall>p\<in>set (groupby key D). fst p < key x"
  proof
    fix p assume "p \<in> set (groupby key D)"
    then have "fst p \<in> set (map fst (groupby key D))" by simp
    with IH2 have "fst p \<in> key ` set D" by (simp only:)
    with lD show "fst p < key x" by auto
  qed
  have a: "sorted_wrt (\<lambda>a b. b < a) (map fst (groupby key (x # xs)))"
    unfolding g using IH1 kD by simp
  have b: "set (map fst (groupby key (x # xs))) = key ` set (x # xs)"
  proof -
    have "key ` set xs = key ` set T \<union> key ` set D"
      unfolding T_def D_def by (rule image_split_takeWhile)
    moreover have "key ` set T \<subseteq> {key x}" using eT unfolding P_def by blast
    ultimately have "insert (key x) (key ` set xs) = insert (key x) (key ` set D)"
      by (simp only: insert_absorb_sub)
    moreover have "set (map fst (groupby key (x # xs))) = insert (key x) (set (map fst (groupby key D)))"
      unfolding g by simp
    ultimately show ?thesis by (simp only: IH2 list.set image_insert)
  qed
  have c: "\<forall>p\<in>set (groupby key (x # xs)). snd p = filter (\<lambda>y. key y = fst p) (x # xs)"
  proof
    fix p assume p: "p \<in> set (groupby key (x # xs))"
    then consider "p = (key x, x # T)" | "p \<in> set (groupby key D)" unfolding g by auto
    then show "snd p = filter (\<lambda>y. key y = fst p) (x # xs)"
    proof cases
      case 1
      then show ?thesis using f1 by (simp add: P_def)
    next
      case 2
      with kD have l: "fst p < key x" by blast
      from IH3 2 have "snd p = filter (\<lambda>y. key y = fst p) D" by blast
      moreover from l have "key x \<noteq> fst p" by simp
      ultimately show ?thesis using f2[OF l] by simp
    qed
  qed
  from a b c show ?case by blast
qed

lemma sorted_reverse_desc:
  "sorted_wrt (\<lambda>a b. date_key (wu_date b) \<le> date_key (wu_date a)) (sorted_reverse units)"
proof -
  have "sorted (map (\<lambda>wu. date_key (wu_date wu)) (sort_key (\<lambda>wu. date_key (wu_date wu)) (rev units)))"
    by (rule sorted_sort_key)
  then have "sorted_wrt (\<lambda>a b. date_key (wu_date a) \<le> date_key (wu_date b))
               (sort_key (\<lambda>wu. date_key (wu_date wu)) (rev units))"
    by (simp only: sorted_wrt_map)
  then show ?thesis
    unfolding sorted_reverse_def by (simp only: sorted_wrt_rev)
qed

lemma year_month_mono:
  "date_key (wu_date b) \<le> date_key (wu_date a) \<Longrightarrow>
     (d_year (wu_date b), d_month (wu_date b)) \<le> (d_year (wu_date a), d_month (wu_date a))"
  by (auto simp: date_key_def)

lemma sorted_reverse_year_month:
  "sorted_wrt (\<lambda>a b. (d_year (wu_date b), d_month (wu_date b)) \<le> (d_year (wu_date a), d_month (wu_date a)))
     (sorted_reverse units)"
  by (rule sorted_wrt_mono_rel[OF _ sorted_reverse_desc]) (rule year_month_mono)

lemma mset_sorted_reverse: "mset (sorted_reverse units) = mset units"
  by (simp add: sorted_reverse_def)

lemma sum_list_filter_mset:
  fixes f :: "'a \<Rightarrow> rat"
  assumes "mset xs = mset ys"
  shows "sum_list (map f (filter P xs)) = sum_list (map f (filter P ys))"
proof -
  have "mset (map f (filter P xs)) = mset (map f (filter P ys))"
    using assms by (simp only: mset_map mset_filter)
  then have "sum_mset (mset (map f (filter P xs))) = sum_mset (mset (map f (filter P ys)))"
    by (rule arg_cong)
  then show ?thesis by (simp only: sum_mset_sum_list)
qed

lemma month_totals_keys:
  "map fst (month_totals units)
     = map fst (groupby (\<lambda>wu. (d_year (wu_date wu), d_month (wu_date wu))) (sorted_reverse units))"
  by (simp add: month_totals_def case_prod_beta comp_def)

lemma month_totals_mem:
  assumes "r \<in> set (month_totals units)"
  shows "\<exists>p\<in>set (groupby (\<lambda>wu. (d_year (wu_date wu), d_month (wu_date wu))) (sorted_reverse units)).
           fst r = fst p \<and> snd r = sum_list (map wu_hours (snd p))"
proof -
  from assms obtain p where p: "p \<in> set (groupby (\<lambda>wu. (d_year (wu_date wu), d_month (wu_date wu))) (sorted_reverse units))"
    and r: "r = (fst p, sum_list (map wu_hours (snd p)))"
    unfolding month_totals_def by (auto simp: case_prod_beta)
  from r have "fst r = fst p \<and> snd r = sum_list (map wu_hours (snd p))" by simp
  with p show ?thesis by (rule bexI[rotated])
qed

lemma desc_distinct:
  fixes xs :: "'k::linorder list"
  shows "sorted_wrt (\<lambda>a b. b < a) xs \<Longrightarrow> distinct xs"
  by (induction xs) auto

text \<open>
  C6. Monthly aggregation. The months of the table are strictly descending (most recent
  first), so no month occurs twice; they are exactly the year-month pairs of the work
  units; the hours of a row are the sum of the hours of all work units of that month; the
  report holds one \<open>table_row\<close> per entry, which prints the month name, the year and the
  hours with two decimals. For the units 2024-01-05 (2 h), 2024-01-20 (3 h) and 2024-02-01
  (1 h) the rows are February 2024 with 1.00 and January 2024 with 5.00, in this order.
\<close>

theorem monthly_aggregation:
  "sorted_wrt (\<lambda>a b. b < a) (map fst (month_totals units))
   \<and> distinct (map fst (month_totals units))
   \<and> set (map fst (month_totals units))
        = (\<lambda>wu. (d_year (wu_date wu), d_month (wu_date wu))) ` set units
   \<and> (\<forall>r\<in>set (month_totals units).
         snd r = sum_list (map wu_hours
                   (filter (\<lambda>wu. (d_year (wu_date wu), d_month (wu_date wu)) = fst r) units)))
   \<and> (\<forall>n p h b. make_report n p h b units
         = dedent (report_template n p h b) @ ''<p><table>'' @ nl
           @ ''<tr><th>Date</th><th>Hours spent</th></tr>'' @ nl
           @ concat (map table_row (month_totals units)) @ ''</table></p>'')
   \<and> (\<forall>y m h. table_row ((y, m), h)
         = ''<tr><td>'' @ month_name m @ '' '' @ show_nat (nat y) @ ''</td><td>''
           @ format_f 2 h @ ''</td></tr>'' @ nl)
   \<and> map table_row (month_totals
         [\<lparr>wu_date = \<lparr>d_year = 2024, d_month = 1, d_day = 5\<rparr>, wu_hours = 2\<rparr>,
          \<lparr>wu_date = \<lparr>d_year = 2024, d_month = 1, d_day = 20\<rparr>, wu_hours = 3\<rparr>,
          \<lparr>wu_date = \<lparr>d_year = 2024, d_month = 2, d_day = 1\<rparr>, wu_hours = 1\<rparr>])
       = [''<tr><td>February 2024</td><td>1.00</td></tr>'' @ nl,
          ''<tr><td>January 2024</td><td>5.00</td></tr>'' @ nl]"
proof -
  let ?k = "\<lambda>wu. (d_year (wu_date wu), d_month (wu_date wu))"
  let ?S = "sorted_reverse units"
  note G = groupby_desc[of ?k ?S, OF sorted_reverse_year_month]
  from G have G1: "sorted_wrt (\<lambda>a b. b < a) (map fst (groupby ?k ?S))" by (rule conjunct1)
  from G have G2: "set (map fst (groupby ?k ?S)) = ?k ` set ?S" by (rule conjunct2[THEN conjunct1])
  from G have G3: "\<forall>p\<in>set (groupby ?k ?S). snd p = filter (\<lambda>x. ?k x = fst p) ?S"
    by (rule conjunct2[THEN conjunct2])
  have 1: "sorted_wrt (\<lambda>a b. b < a) (map fst (month_totals units))"
    using G1 by (simp only: month_totals_keys)
  have 2: "distinct (map fst (month_totals units))"
    using 1 by (rule desc_distinct)
  have "set ?S = set units"
    using mset_sorted_reverse[of units] by (rule mset_eq_setD)
  then have 3: "set (map fst (month_totals units)) = ?k ` set units"
    using G2 by (simp only: month_totals_keys)
  have 4: "\<forall>r\<in>set (month_totals units).
         snd r = sum_list (map wu_hours (filter (\<lambda>wu. ?k wu = fst r) units))"
  proof
    fix r assume "r \<in> set (month_totals units)"
    from month_totals_mem[OF this] obtain p where p: "p \<in> set (groupby ?k ?S)"
      and f: "fst r = fst p" and s: "snd r = sum_list (map wu_hours (snd p))" by blast
    from G3 p have "snd p = filter (\<lambda>x. ?k x = fst p) ?S" by blast
    with s f have "snd r = sum_list (map wu_hours (filter (\<lambda>x. ?k x = fst r) ?S))" by simp
    also have "\<dots> = sum_list (map wu_hours (filter (\<lambda>x. ?k x = fst r) units))"
      by (rule sum_list_filter_mset[OF mset_sorted_reverse])
    finally show "snd r = sum_list (map wu_hours (filter (\<lambda>wu. ?k wu = fst r) units))" .
  qed
  have 5: "\<forall>n p h b. make_report n p h b units
         = dedent (report_template n p h b) @ ''<p><table>'' @ nl
           @ ''<tr><th>Date</th><th>Hours spent</th></tr>'' @ nl
           @ concat (map table_row (month_totals units)) @ ''</table></p>''"
    by (simp add: make_report_def)
  have 6: "\<forall>y m h. table_row ((y, m), h)
         = ''<tr><td>'' @ month_name m @ '' '' @ show_nat (nat y) @ ''</td><td>''
           @ format_f 2 h @ ''</td></tr>'' @ nl"
    by (simp add: table_row_def)
  have 7: "map table_row (month_totals
         [\<lparr>wu_date = \<lparr>d_year = 2024, d_month = 1, d_day = 5\<rparr>, wu_hours = 2\<rparr>,
          \<lparr>wu_date = \<lparr>d_year = 2024, d_month = 1, d_day = 20\<rparr>, wu_hours = 3\<rparr>,
          \<lparr>wu_date = \<lparr>d_year = 2024, d_month = 2, d_day = 1\<rparr>, wu_hours = 1\<rparr>])
       = [''<tr><td>February 2024</td><td>1.00</td></tr>'' @ nl,
          ''<tr><td>January 2024</td><td>5.00</td></tr>'' @ nl]"
    by code_simp
  from 1 2 3 4 5 6 7 show ?thesis by blast
qed

theorem monthly_aggregation_witness:
  "month_totals
     [\<lparr>wu_date = \<lparr>d_year = 2024, d_month = 1, d_day = 5\<rparr>, wu_hours = 2\<rparr>,
      \<lparr>wu_date = \<lparr>d_year = 2024, d_month = 1, d_day = 20\<rparr>, wu_hours = 3\<rparr>,
      \<lparr>wu_date = \<lparr>d_year = 2024, d_month = 2, d_day = 1\<rparr>, wu_hours = 1\<rparr>]
     = [((2024, 2), 1), ((2024, 1), 5)]
   \<and> distinct (map fst (month_totals
     [\<lparr>wu_date = \<lparr>d_year = 2024, d_month = 1, d_day = 5\<rparr>, wu_hours = 2\<rparr>,
      \<lparr>wu_date = \<lparr>d_year = 2024, d_month = 1, d_day = 20\<rparr>, wu_hours = 3\<rparr>,
      \<lparr>wu_date = \<lparr>d_year = 2024, d_month = 2, d_day = 1\<rparr>, wu_hours = 1\<rparr>]))
   \<and> sum_list (map wu_hours
         (filter (\<lambda>wu. (d_year (wu_date wu), d_month (wu_date wu)) = (2024, 1))
            [\<lparr>wu_date = \<lparr>d_year = 2024, d_month = 1, d_day = 5\<rparr>, wu_hours = 2\<rparr>,
             \<lparr>wu_date = \<lparr>d_year = 2024, d_month = 1, d_day = 20\<rparr>, wu_hours = 3\<rparr>,
             \<lparr>wu_date = \<lparr>d_year = 2024, d_month = 2, d_day = 1\<rparr>, wu_hours = 1\<rparr>])) = 5"
proof -
  let ?u = "[\<lparr>wu_date = \<lparr>d_year = 2024, d_month = 1, d_day = 5\<rparr>, wu_hours = 2\<rparr>,
      \<lparr>wu_date = \<lparr>d_year = 2024, d_month = 1, d_day = 20\<rparr>, wu_hours = 3\<rparr>,
      \<lparr>wu_date = \<lparr>d_year = 2024, d_month = 2, d_day = 1\<rparr>, wu_hours = 1\<rparr>]"
  have e: "month_totals ?u = [((2024, 2), 1), ((2024, 1), 5)]" by code_simp
  note T = monthly_aggregation[of ?u]
  from T have d: "distinct (map fst (month_totals ?u))"
    by (rule conjunct2[THEN conjunct1])
  from T have s: "\<forall>r\<in>set (month_totals ?u).
         snd r = sum_list (map wu_hours
                   (filter (\<lambda>wu. (d_year (wu_date wu), d_month (wu_date wu)) = fst r) ?u))"
    by (rule conjunct2[THEN conjunct2, THEN conjunct2, THEN conjunct1])
  have "((2024, 1), 5) \<in> set (month_totals ?u)" by (simp only: e) simp
  from bspec[OF s this] have "sum_list (map wu_hours
         (filter (\<lambda>wu. (d_year (wu_date wu), d_month (wu_date wu)) = (2024, 1)) ?u)) = 5"
    by (simp only: fst_conv snd_conv)
  with e d show ?thesis by (intro conjI)
qed

subsection \<open>Rendering twice\<close>

text \<open>
  C1. The claim says that a second rendering with the same work units and budget reports
  no change. The guard reads the budget back from the page, where it was printed with
  \<^verbatim>\<open>{budget:.0f}\<close>, and accepts a difference below 0.01: a budget with a fraction never
  passes. For the page \<^verbatim>\<open>Notes\<close>, one work unit of 2 hours and the budget 10.25 the first
  call prints "2.00 out of 10 hours used" and the second call, on the body the first one
  returned, rewrites the page again (and adds two more line feeds); with the budget 10 the
  second call returns \<open>False\<close>, as the docstring of the function promises ("the report is only
  updated if the numbers have changed").
\<close>

theorem render_twice_fractional_budget:
  "update_report_page False ''X'' ''Notes''
     [\<lparr>wu_date = \<lparr>d_year = 2024, d_month = 1, d_day = 5\<rparr>, wu_hours = 2\<rparr>] (41 / 4)
     = Inr (''Notes'' @ nl @ nl @ ''<hr />'' @ nl @ ''<h2>Project X is 19.5% complete</h2>'' @ nl
            @ ''<p>2.00 out of 10 hours used.</p>'' @ nl @ ''<p><table>'' @ nl
            @ ''<tr><th>Date</th><th>Hours spent</th></tr>'' @ nl
            @ ''<tr><td>January 2024</td><td>2.00</td></tr>'' @ nl @ ''</table></p>'', True)
   \<and> update_report_page False ''X''
       (''Notes'' @ nl @ nl @ ''<hr />'' @ nl @ ''<h2>Project X is 19.5% complete</h2>'' @ nl
            @ ''<p>2.00 out of 10 hours used.</p>'' @ nl @ ''<p><table>'' @ nl
            @ ''<tr><th>Date</th><th>Hours spent</th></tr>'' @ nl
            @ ''<tr><td>January 2024</td><td>2.00</td></tr>'' @ nl @ ''</table></p>'')
     [\<lparr>wu_date = \<lparr>d_year = 2024, d_month = 1, d_day = 5\<rparr>, wu_hours = 2\<rparr>] (41 / 4)
     = Inr (''Notes'' @ nl @ nl @ nl @ nl @ ''<hr />'' @ nl @ ''<h2>Project X is 19.5% complete</h2>'' @ nl
            @ ''<p>2.00 out of 10 hours used.</p>'' @ nl @ ''<p><table>'' @ nl
            @ ''<tr><th>Date</th><th>Hours spent</th></tr>'' @ nl
            @ ''<tr><td>January 2024</td><td>2.00</td></tr>'' @ nl @ ''</table></p>'', True)
   \<and> update_report_page False ''X''
       (''Notes'' @ nl @ nl @ ''<hr />'' @ nl @ ''<h2>Project X is 20.0% complete</h2>'' @ nl
            @ ''<p>2.00 out of 10 hours used.</p>'' @ nl @ ''<p><table>'' @ nl
            @ ''<tr><th>Date</th><th>Hours spent</th></tr>'' @ nl
            @ ''<tr><td>January 2024</td><td>2.00</td></tr>'' @ nl @ ''</table></p>'')
     [\<lparr>wu_date = \<lparr>d_year = 2024, d_month = 1, d_day = 5\<rparr>, wu_hours = 2\<rparr>] 10
     = Inr (''Notes'' @ nl @ nl @ ''<hr />'' @ nl @ ''<h2>Project X is 20.0% complete</h2>'' @ nl
            @ ''<p>2.00 out of 10 hours used.</p>'' @ nl @ ''<p><table>'' @ nl
            @ ''<tr><th>Date</th><th>Hours spent</th></tr>'' @ nl
            @ ''<tr><td>January 2024</td><td>2.00</td></tr>'' @ nl @ ''</table></p>'', False)"
  by code_simp

subsection \<open>Rendering twice with a whole-number budget\<close>

text \<open>
  The guard does its work when the budget is a whole number: the report prints the hours
  with two decimals and the budget without a fraction, \<open>re_search\<close> finds exactly these two
  numbers in the page just written, and both are within 0.01 of the values they were
  printed from. The lemmas below follow the data through \<open>format_f\<close>, \<open>py_float\<close> and
  \<open>re_search\<close>.
\<close>

lemma digit_val_digit_char_upto: "list_all (\<lambda>n. digit_val (digit_char n) = n) [0..<10]"
  by code_simp

lemma digit_val_digit_char: "n < 10 \<Longrightarrow> digit_val (digit_char n) = n"
  using digit_val_digit_char_upto unfolding list_all_iff by simp

lemma nat_of_digits_snoc: "nat_of_digits (xs @ [c]) = 10 * nat_of_digits xs + digit_val c"
  by (simp add: nat_of_digits_def)

lemma nat_of_digits_show_nat: "nat_of_digits (show_nat n) = n"
proof (induction n rule: show_nat.induct)
  case (1 n)
  show ?case
  proof (cases "n < 10")
    case True
    have "show_nat n = [digit_char n]" using True by (subst show_nat.simps) simp
    then show ?thesis using digit_val_digit_char[OF True] by (simp add: nat_of_digits_def)
  next
    case False
    have e: "show_nat n = show_nat (n div 10) @ [digit_char (n mod 10)]"
      using False by (subst show_nat.simps) simp
    have "n mod 10 < 10" by simp
    from digit_val_digit_char[OF this] 1[OF False] show ?thesis
      unfolding e nat_of_digits_snoc by simp
  qed
qed

lemma show_nat_nonempty: "show_nat n \<noteq> []"
  by (subst show_nat.simps) simp

lemma show_nat_digits: "list_all is_digit (show_nat n)"
  using show_nat_chars[of n] unfolding list_all_iff is_digit_def by blast

lemma length_show_nat_small: "n < 100 \<Longrightarrow> length (show_nat n) \<le> 2"
proof -
  assume n: "n < 100"
  show ?thesis
  proof (cases "n < 10")
    case True
    then show ?thesis by (subst show_nat.simps) simp
  next
    case False
    from n have "n div 10 < 10" by simp
    then have "show_nat (n div 10) = [digit_char (n div 10)]" by (subst show_nat.simps) simp
    with False show ?thesis by (subst show_nat.simps) simp
  qed
qed

lemma digit_val_zero: "digit_val (CHR ''0'') = 0"
  by (simp add: digit_val_def)

lemma foldl_zeros:
  "foldl (\<lambda>n c. 10 * n + digit_val c) 0 (replicate k (CHR ''0'')) = 0"
  by (induction k) (simp_all add: digit_val_zero)

lemma nat_of_digits_zero_pad: "nat_of_digits (zero_pad w s) = nat_of_digits s"
  by (simp add: nat_of_digits_def zero_pad_def foldl_zeros)

lemma zero_pad_digits: "list_all is_digit s \<Longrightarrow> list_all is_digit (zero_pad w s)"
proof -
  assume a: "list_all is_digit s"
  have "is_digit (CHR ''0'')" by (simp add: is_digit_def)
  with a show ?thesis by (auto simp: zero_pad_def list_all_iff)
qed

lemma length_zero_pad: "length s \<le> w \<Longrightarrow> length (zero_pad w s) = w"
  by (simp add: zero_pad_def)

lemma py_float_digits:
  assumes "list_all is_digit s" and "s \<noteq> []"
  shows "py_float s = Inr (of_nat (nat_of_digits s))"
proof -
  have t: "takeWhile is_digit s = s" using assms(1) by (simp add: takeWhile_eq_all_conv list_all_iff)
  have d: "dropWhile is_digit s = []" using assms(1) by (simp add: list_all_iff)
  show ?thesis using assms(2) by (simp add: py_float_def t d)
qed

lemma not_digit_dot: "\<not> is_digit (CHR ''.'')"
  by (simp add: is_digit_def)

lemma py_float_decimal:
  assumes "list_all is_digit ip" and "list_all is_digit fp" and "ip \<noteq> []"
  shows "py_float (ip @ CHR ''.'' # fp)
           = Inr (of_nat (nat_of_digits ip) + of_nat (nat_of_digits fp) / 10 ^ length fp)"
proof -
  have t: "takeWhile is_digit (ip @ CHR ''.'' # fp) = ip"
    using assms(1) not_digit_dot by (simp add: takeWhile_append2 list_all_iff)
  have d: "dropWhile is_digit (ip @ CHR ''.'' # fp) = CHR ''.'' # fp"
    using assms(1) not_digit_dot by (simp add: dropWhile_append2 list_all_iff)
  show ?thesis using assms(2,3) by (simp add: py_float_def t d)
qed

lemma round_half_even_near: "\<bar>of_int (round_half_even x) - x\<bar> \<le> 1 / 2"
proof -
  define f where "f = (of_int \<lfloor>x\<rfloor> :: rat)"
  have fl: "f \<le> x" "x < f + 1" unfolding f_def by linarith+
  have c: "(x - f < 1 / 2 \<and> of_int (round_half_even x) = f)
         \<or> (x - f = 1 / 2 \<and> (of_int (round_half_even x) = f \<or> of_int (round_half_even x) = f + 1))
         \<or> (1 / 2 < x - f \<and> of_int (round_half_even x) = f + 1)"
    unfolding f_def round_half_even_def Let_def by auto
  then show ?thesis
  proof (elim disjE conjE)
    assume "x - f < 1 / 2" "of_int (round_half_even x) = f"
    with fl show ?thesis by (simp add: abs_if) 
  next
    assume "x - f = 1 / 2" "of_int (round_half_even x) = f"
    then show ?thesis by (simp add: abs_if)
  next
    assume "x - f = 1 / 2" "of_int (round_half_even x) = f + 1"
    then show ?thesis by (simp add: abs_if)
  next
    assume "1 / 2 < x - f" "of_int (round_half_even x) = f + 1"
    with fl show ?thesis by (simp add: abs_if)
  qed
qed

lemma round_half_even_nonneg: "0 \<le> x \<Longrightarrow> 0 \<le> round_half_even x"
proof -
  assume "0 \<le> x"
  then have "0 \<le> \<lfloor>x\<rfloor>" by simp
  then show ?thesis unfolding round_half_even_def Let_def by auto
qed

lemma round_half_even_of_nat: "round_half_even (of_nat n) = int n"
  by (simp add: round_half_even_def Let_def)

lemma format_f_0_of_nat: "format_f 0 (of_nat n) = show_nat n"
  by (simp add: format_f_def round_half_even_of_nat)

lemma py_float_format_0: "py_float (format_f 0 (of_nat n)) = Inr (of_nat n)"
  by (simp add: format_f_0_of_nat py_float_digits show_nat_digits show_nat_nonempty
      nat_of_digits_show_nat)

lemma format_f_2_nonneg:
  assumes "0 \<le> h"
  shows "format_f 2 h = show_nat (nat (round_half_even (h * 100)) div 100)
           @ CHR ''.'' # zero_pad 2 (show_nat (nat (round_half_even (h * 100)) mod 100))"
  using assms by (simp add: format_f_def Let_def)

lemma py_float_format_2:
  assumes "0 \<le> h"
  shows "py_float (format_f 2 h) = Inr (of_nat (nat (round_half_even (h * 100))) / 100)"
proof -
  define N where "N = nat (round_half_even (h * 100))"
  have l: "length (zero_pad 2 (show_nat (N mod 100))) = 2"
    by (rule length_zero_pad) (rule length_show_nat_small, simp)
  have d: "list_all is_digit (zero_pad 2 (show_nat (N mod 100)))"
    by (rule zero_pad_digits) (rule show_nat_digits)
  have "py_float (format_f 2 h)
      = Inr (of_nat (N div 100) + of_nat (N mod 100) / 10 ^ 2)"
    unfolding format_f_2_nonneg[OF assms] N_def[symmetric]
    by (simp add: py_float_decimal[OF show_nat_digits d show_nat_nonempty] l
        nat_of_digits_show_nat nat_of_digits_zero_pad)
  also have "(of_nat (N div 100) + of_nat (N mod 100) / 10 ^ 2 :: rat) = of_nat N / 100"
  proof -
    have "(of_nat N :: rat) = of_nat (N div 100 * 100 + N mod 100)" by simp
    also have "\<dots> = of_nat (N div 100) * 100 + of_nat (N mod 100)"
      by (simp only: of_nat_add of_nat_mult of_nat_numeral)
    finally show ?thesis by simp
  qed
  finally show ?thesis by (simp only: N_def)
qed

lemma format_2_close:
  assumes "0 \<le> h"
  shows "\<bar>h - of_nat (nat (round_half_even (h * 100))) / 100\<bar> < 1 / 100"
proof -
  define R where "R = round_half_even (h * 100)"
  have "0 \<le> h * 100" using assms by simp
  then have "0 \<le> R" unfolding R_def by (rule round_half_even_nonneg)
  then have n: "(of_nat (nat R) :: rat) = of_int R" by simp
  have "\<bar>of_int R - h * 100\<bar> \<le> 1 / 2" unfolding R_def by (rule round_half_even_near)
  then have "\<bar>h - of_int R / 100\<bar> < 1 / 100" by (simp add: abs_if split: if_splits)
  then show ?thesis unfolding R_def[symmetric] n .
qed

lemma is_digit_numch: "is_digit c \<Longrightarrow> is_numch c"
  by (auto simp: is_digit_def is_numch_def)

lemma show_nat_numch: "list_all is_numch (show_nat n)"
  using show_nat_digits[of n] by (auto simp: list_all_iff is_digit_numch)

lemma format_f_0_numch: "list_all is_numch (format_f 0 (of_nat n))"
  by (simp add: format_f_0_of_nat show_nat_numch)

lemma format_f_2_numch: "0 \<le> h \<Longrightarrow> list_all is_numch (format_f 2 h)"
proof -
  assume h: "0 \<le> h"
  have a: "list_all is_numch (zero_pad 2 (show_nat k))" for k
    using zero_pad_digits[OF show_nat_digits, of 2 k] by (auto simp: list_all_iff is_digit_numch)
  have b: "is_numch (CHR ''.'')" by (simp add: is_numch_def)
  show ?thesis unfolding format_f_2_nonneg[OF h] using show_nat_numch a b by simp
qed

lemma format_f_nonempty: "format_f d x \<noteq> []"
  by (simp add: format_f_def Let_def show_nat_nonempty)

lemma match_here_stop: "\<not> is_numch c \<Longrightarrow> match_here (c # s) = None"
  by (simp add: match_here_def)

lemma re_search_skip: "\<not> is_numch c \<Longrightarrow> re_search (c # s) = re_search s"
  by (simp add: match_here_stop)

lemma re_search_skip_list:
  "list_all (\<lambda>c. \<not> is_numch c) xs \<Longrightarrow> re_search (xs @ s) = re_search s"
  by (induction xs) (simp_all add: match_here_stop)

lemma not_numch_blank: "\<not> is_numch (CHR '' '')"
  by (simp add: is_numch_def)

lemma takeWhile_run:
  "list_all P xs \<Longrightarrow> \<not> P c \<Longrightarrow> takeWhile P (xs @ c # r) = xs"
  by (induction xs) simp_all

lemma dropWhile_run:
  "list_all P xs \<Longrightarrow> \<not> P c \<Longrightarrow> dropWhile P (xs @ c # r) = c # r"
  by (induction xs) simp_all

lemma match_here_hit:
  assumes "list_all is_numch H" "H \<noteq> []" "list_all is_numch B" "B \<noteq> []"
  shows "match_here (H @ '' out of '' @ B @ '' hours used'' @ rest) = Some (H, B)"
proof -
  have t1: "takeWhile is_numch (H @ CHR '' '' # ''out of '' @ B @ '' hours used'' @ rest) = H"
    by (rule takeWhile_run[OF assms(1) not_numch_blank])
  have d1: "dropWhile is_numch (H @ CHR '' '' # ''out of '' @ B @ '' hours used'' @ rest)
              = CHR '' '' # ''out of '' @ B @ '' hours used'' @ rest"
    by (rule dropWhile_run[OF assms(1) not_numch_blank])
  have t2: "takeWhile is_numch (B @ CHR '' '' # ''hours used'' @ rest) = B"
    by (rule takeWhile_run[OF assms(3) not_numch_blank])
  have d2: "dropWhile is_numch (B @ CHR '' '' # ''hours used'' @ rest) = CHR '' '' # ''hours used'' @ rest"
    by (rule dropWhile_run[OF assms(3) not_numch_blank])
  have e: "H @ '' out of '' @ B @ '' hours used'' @ rest
         = H @ CHR '' '' # ''out of '' @ B @ '' hours used'' @ rest" by simp
  show ?thesis
    unfolding match_here_def e t1 d1 Let_def
    using assms(2,4) t2 d2 by simp
qed

lemma re_search_hit:
  assumes "list_all is_numch H" "H \<noteq> []" "list_all is_numch B" "B \<noteq> []"
  shows "re_search (H @ '' out of '' @ B @ '' hours used'' @ rest) = Some (H, B)"
proof -
  from assms(2) obtain c H' where H: "H = c # H'" by (cases H) auto
  have "re_search ((c # H') @ '' out of '' @ B @ '' hours used'' @ rest) = Some (H, B)"
    using match_here_hit[OF assms, of rest] unfolding H
    by simp
  then show ?thesis unfolding H .
qed

lemma dropWhile_head_not_blank:
  "CHR '' '' \<notin> set F \<Longrightarrow> c \<noteq> CHR '' '' \<Longrightarrow> \<not> is_numch c \<Longrightarrow>
     \<not> prefix (CHR '' '' # p) (dropWhile is_numch (F @ c # rest))"
  by (induction F) auto

lemma match_here_run_fails:
  assumes "CHR '' '' \<notin> set F" "c \<noteq> CHR '' ''" "\<not> is_numch c"
  shows "match_here (F @ c # rest) = None"
  using dropWhile_head_not_blank[OF assms, of "''out of ''" rest]
  by (simp add: match_here_def Let_def)

lemma re_search_run:
  assumes "CHR '' '' \<notin> set F" "c \<noteq> CHR '' ''" "\<not> is_numch c"
  shows "re_search (F @ c # rest) = re_search rest"
  using assms(1)
proof (induction F)
  case Nil
  show ?case using assms(3) by (simp add: match_here_stop)
next
  case (Cons a F)
  from Cons.prems have b: "CHR '' '' \<notin> set (a # F)" and b': "CHR '' '' \<notin> set F" by simp_all
  have "match_here ((a # F) @ c # rest) = None"
    by (rule match_here_run_fails[OF b assms(2,3)])
  then show ?case using Cons.IH[OF b'] by simp
qed

lemma show_nat_no_blank: "CHR '' '' \<notin> set (show_nat k)"
proof
  assume "CHR '' '' \<in> set (show_nat k)"
  with show_nat_chars[of k] have "CHR '' '' \<in> set ''0123456789''" by blast
  then show False by simp
qed

lemma format_f_no_blank: "CHR '' '' \<notin> set (format_f d x)"
  by (simp add: format_f_def Let_def zero_pad_def show_nat_no_blank)

lemma dropWhile_keep: "\<not> P c \<Longrightarrow> dropWhile P (u @ c # r) = dropWhile P u @ c # r"
  by (induction u) simp_all

lemma match_here_prefix:
  "match_here s \<noteq> None \<Longrightarrow> prefix '' out of '' (dropWhile is_numch s)"
  by (simp add: match_here_def Let_def split: if_splits)

lemma match_here_in_name:
  assumes "\<not> sublist '' out of'' name" and "suffix u name"
  shows "match_here (u @ '' is '' @ R) = None"
proof (rule ccontr)
  assume "match_here (u @ '' is '' @ R) \<noteq> None"
  then have "prefix '' out of '' (dropWhile is_numch (u @ '' is '' @ R))"
    by (rule match_here_prefix)
  moreover have "dropWhile is_numch (u @ CHR '' '' # ''is '' @ R)
      = dropWhile is_numch u @ CHR '' '' # ''is '' @ R"
    using not_numch_blank by (rule dropWhile_keep[of is_numch "CHR '' ''"])
  ultimately have "prefix '' out of '' ((dropWhile is_numch u @ '' '') @ CHR ''i'' # ''s '' @ R)"
    by simp
  then have "prefix '' out of '' (dropWhile is_numch u @ '' '')"
    by (rule prefix_skip_char) simp
  then have "prefix ('' out of'' @ '' '') (dropWhile is_numch u @ '' '')" by simp
  then have "prefix '' out of'' (dropWhile is_numch u)"
    unfolding prefix_snoc by (auto simp del: append.simps elim: prefixE)
  then have "sublist '' out of'' (dropWhile is_numch u)" by (rule prefix_imp_sublist)
  moreover have "sublist (dropWhile is_numch u) u"
    by (rule suffix_imp_sublist) (rule suffix_dropWhile)
  moreover have "sublist u name" using assms(2) by (rule suffix_imp_sublist)
  ultimately have "sublist '' out of'' name" by (meson sublist_order.order.trans)
  with assms(1) show False by contradiction
qed

lemma re_search_name_suffix:
  assumes "\<not> sublist '' out of'' name"
  shows "suffix u name \<Longrightarrow> re_search (u @ '' is '' @ R) = re_search ('' is '' @ R)"
proof (induction u)
  case Nil
  show ?case by simp
next
  case (Cons a u)
  from Cons.prems have s: "suffix u name" by (rule suffix_ConsD)
  have "match_here ((a # u) @ '' is '' @ R) = None"
    by (rule match_here_in_name[OF assms Cons.prems])
  then have "re_search ((a # u) @ '' is '' @ R) = re_search (u @ '' is '' @ R)" by simp
  with Cons.IH[OF s] show ?case by simp
qed

lemma re_search_name:
  "\<not> sublist '' out of'' name \<Longrightarrow> re_search (name @ '' is '' @ R) = re_search ('' is '' @ R)"
  using re_search_name_suffix[of name name R] by simp

lemma str_find_new_body:
  "str_find marker (before_marker s @ nl @ nl @ marker @ rest) = Some (length (before_marker s) + 2)"
proof -
  have m: "marker \<noteq> []" "CHR 0x0A \<notin> set marker" by (simp_all add: marker_def)
  have a: "str_find marker (CHR 0x0A # marker @ rest) = Some 1"
    using str_find_append_char[of marker "[]" "CHR 0x0A" "marker @ rest"] m
    by (simp add: marker_def)
  have "str_find marker (before_marker s @ CHR 0x0A # (CHR 0x0A # marker @ rest))
          = Some (length (before_marker s) + 2)"
    using str_find_append_char[OF str_find_before_marker m(2) m(1), of s "CHR 0x0A # marker @ rest"] a
    by simp
  then show ?thesis by (simp add: nl_def)
qed

lemma re_search_report:
  assumes n: "\<not> sublist '' out of'' name"
    and H: "list_all is_numch H" "H \<noteq> []"
    and B: "list_all is_numch B" "B \<noteq> []"
    and P: "CHR '' '' \<notin> set P1"
  shows "re_search (marker @ nl @ ''<h2>Project '' @ name @ '' is '' @ (P1 @ ''%'')
            @ '' complete</h2>'' @ nl @ ''<p>'' @ H @ '' out of '' @ B @ '' hours used.</p>'' @ nl @ rest)
         = Some (H, B)"
proof -
  define t5 where "t5 = H @ '' out of '' @ B @ '' hours used'' @ (''.</p>'' @ nl @ rest)"
  define t4 where "t4 = (nl @ ''<p>'') @ t5"
  define t3 where "t3 = ''2'' @ CHR ''>'' # t4"
  define t2 where "t2 = '' complete</h'' @ t3"
  define t1 where "t1 = P1 @ CHR ''%'' # t2"
  define t0 where "t0 = '' is '' @ t1"
  define n0 where "n0 = name @ '' is '' @ t1"
  define n1 where "n1 = ''Project '' @ n0"
  define n2 where "n2 = ''2'' @ CHR ''>'' # n1"
  define n3 where "n3 = (marker @ nl @ ''<h'') @ n2"
  have s5: "re_search t5 = Some (H, B)"
    unfolding t5_def by (rule re_search_hit[OF H B])
  have s4: "re_search t4 = re_search t5"
    unfolding t4_def by (rule re_search_skip_list) (simp add: nl_def is_numch_def)
  have two: "CHR '' '' \<notin> set ''2''" "CHR ''>'' \<noteq> CHR '' ''" "\<not> is_numch (CHR ''>'')"
    by (simp_all add: is_numch_def)
  have pc: "CHR ''%'' \<noteq> CHR '' ''" "\<not> is_numch (CHR ''%'')"
    by (simp_all add: is_numch_def)
  have s3: "re_search t3 = re_search t4"
    unfolding t3_def by (rule re_search_run[OF two])
  have s2: "re_search t2 = re_search t3"
    unfolding t2_def by (rule re_search_skip_list) (simp add: is_numch_def)
  have s1: "re_search t1 = re_search t2"
    unfolding t1_def by (rule re_search_run[OF P pc])
  have s0: "re_search t0 = re_search t1"
    unfolding t0_def by (rule re_search_skip_list) (simp add: is_numch_def)
  have r0: "re_search n0 = re_search t0"
    unfolding n0_def t0_def by (rule re_search_name[OF n])
  have r1: "re_search n1 = re_search n0"
    unfolding n1_def by (rule re_search_skip_list) (simp add: is_numch_def)
  have r2: "re_search n2 = re_search n1"
    unfolding n2_def by (rule re_search_run[OF two])
  have r3: "re_search n3 = re_search n2"
    unfolding n3_def by (rule re_search_skip_list) (simp add: nl_def marker_def is_numch_def)
  have e: "marker @ nl @ ''<h2>Project '' @ name @ '' is '' @ (P1 @ ''%'')
            @ '' complete</h2>'' @ nl @ ''<p>'' @ H @ '' out of '' @ B @ '' hours used.</p>'' @ nl @ rest
          = n3"
    unfolding n3_def n2_def n1_def n0_def t1_def t2_def t3_def t4_def t5_def by simp
  show ?thesis
    unfolding e by (simp only: r3 r2 r1 r0 s0 s1 s2 s3 s4 s5)
qed

lemma update_report_page_unchanged:
  "update_report_page force space_name text work_units budget = Inr (body, False) \<Longrightarrow> body = text"
  by (auto simp: update_report_page_def Let_def
      split: option.splits sum.splits if_splits prod.splits)

lemma update_report_page_guard:
  assumes "str_find marker text = Some i"
    and "re_search (drop i text) = Some (g1, g2)"
    and "py_float g1 = Inr x" and "py_float g2 = Inr y"
    and "\<bar>work_hours work_units - x\<bar> < 1 / 100" and "\<bar>y - budget\<bar> < 1 / 100"
  shows "update_report_page False space_name text work_units budget = Inr (text, False)"
  using assms by (simp add: update_report_page_def)

text \<open>
  For a budget that is a whole number, a sum of hours that is not negative and a space name
  without a line feed and without the text " out of", rendering the body that a first
  rendering returned gives that body back with the flag \<open>False\<close>.
\<close>

theorem render_idempotent_whole_budget:
  assumes r: "update_report_page False space_name text work_units (of_nat b) = Inr (body, changed)"
    and h: "0 \<le> work_hours work_units"
    and n: "CHR 0x0A \<notin> set space_name"
    and s: "\<not> sublist '' out of'' space_name"
  shows "update_report_page False space_name body work_units (of_nat b) = Inr (body, False)"
proof (cases changed)
  case False
  with r have "body = text" by (simp add: update_report_page_unchanged)
  with r False show ?thesis by simp
next
  case True
  define hs where "hs = work_hours work_units"
  from r True have rt: "update_report_page False space_name text work_units (of_nat b) = Inr (body, True)"
    by simp
  from update_report_page_changed[OF rt] obtain percent where
    b: "body = before_marker text @ nl
           @ make_report space_name percent hs (of_nat b) work_units"
    unfolding hs_def by blast
  define tbl where "tbl = ''<p><table>'' @ nl @ ''<tr><th>Date</th><th>Hours spent</th></tr>'' @ nl
     @ concat (map table_row (month_totals work_units)) @ ''</table></p>''"
  define rest where "rest = nl @ ''<h2>Project '' @ space_name @ '' is ''
            @ (format_f 1 (percent * 100) @ ''%'')
            @ '' complete</h2>'' @ nl @ ''<p>'' @ format_f 2 hs @ '' out of ''
            @ format_f 0 (of_nat b) @ '' hours used.</p>'' @ nl @ tbl"
  have body: "body = before_marker text @ nl @ nl @ marker @ rest"
    unfolding b rest_def tbl_def
    by (simp add: make_report_def dedent_report_template[OF n] format_percent_def)
  have i: "str_find marker body = Some (length (before_marker text) + 2)"
    unfolding body by (rule str_find_new_body)
  have d: "drop (length (before_marker text) + 2) body = marker @ rest"
    unfolding body by (simp add: nl_def)
  have m: "re_search (marker @ rest) = Some (format_f 2 hs, format_f 0 (of_nat b))"
    unfolding rest_def
    by (rule re_search_report[OF s format_f_2_numch format_f_nonempty format_f_0_numch
          format_f_nonempty format_f_no_blank]) (simp add: h[folded hs_def])
  have p1: "py_float (format_f 2 hs) = Inr (of_nat (nat (round_half_even (hs * 100))) / 100)"
    by (rule py_float_format_2) (simp add: h[folded hs_def])
  have p2: "py_float (format_f 0 (of_nat b)) = Inr (of_nat b)"
    by (rule py_float_format_0)
  have c1: "\<bar>work_hours work_units - of_nat (nat (round_half_even (hs * 100))) / 100\<bar> < 1 / 100"
    unfolding hs_def[symmetric] by (rule format_2_close) (simp add: h[folded hs_def])
  have c2: "\<bar>(of_nat b :: rat) - of_nat b\<bar> < 1 / 100" by simp
  show ?thesis
    by (rule update_report_page_guard[OF i m[folded d] p1 p2 c1 c2])
qed

theorem render_idempotent_whole_budget_example:
  "update_report_page False ''P_1234'' ''Notes''
     [\<lparr>wu_date = \<lparr>d_year = 2024, d_month = 1, d_day = 5\<rparr>, wu_hours = 5 / 4\<rparr>] (of_nat 10)
     = Inr (''Notes'' @ nl @ nl @ ''<hr />'' @ nl @ ''<h2>Project P_1234 is 12.5% complete</h2>'' @ nl
            @ ''<p>1.25 out of 10 hours used.</p>'' @ nl @ ''<p><table>'' @ nl
            @ ''<tr><th>Date</th><th>Hours spent</th></tr>'' @ nl
            @ ''<tr><td>January 2024</td><td>1.25</td></tr>'' @ nl @ ''</table></p>'', True)
   \<and> update_report_page False ''P_1234''
       (''Notes'' @ nl @ nl @ ''<hr />'' @ nl @ ''<h2>Project P_1234 is 12.5% complete</h2>'' @ nl
            @ ''<p>1.25 out of 10 hours used.</p>'' @ nl @ ''<p><table>'' @ nl
            @ ''<tr><th>Date</th><th>Hours spent</th></tr>'' @ nl
            @ ''<tr><td>January 2024</td><td>1.25</td></tr>'' @ nl @ ''</table></p>'')
     [\<lparr>wu_date = \<lparr>d_year = 2024, d_month = 1, d_day = 5\<rparr>, wu_hours = 5 / 4\<rparr>] (of_nat 10)
     = Inr (''Notes'' @ nl @ nl @ ''<hr />'' @ nl @ ''<h2>Project P_1234 is 12.5% complete</h2>'' @ nl
            @ ''<p>1.25 out of 10 hours used.</p>'' @ nl @ ''<p><table>'' @ nl
            @ ''<tr><th>Date</th><th>Hours spent</th></tr>'' @ nl
            @ ''<tr><td>January 2024</td><td>1.25</td></tr>'' @ nl @ ''</table></p>'', False)"
proof -
  let ?u = "[\<lparr>wu_date = \<lparr>d_year = 2024, d_month = 1, d_day = 5\<rparr>, wu_hours = 5 / 4\<rparr>]"
  let ?b = "''Notes'' @ nl @ nl @ ''<hr />'' @ nl @ ''<h2>Project P_1234 is 12.5% complete</h2>'' @ nl
            @ ''<p>1.25 out of 10 hours used.</p>'' @ nl @ ''<p><table>'' @ nl
            @ ''<tr><th>Date</th><th>Hours spent</th></tr>'' @ nl
            @ ''<tr><td>January 2024</td><td>1.25</td></tr>'' @ nl @ ''</table></p>''"
  have r: "update_report_page False ''P_1234'' ''Notes'' ?u (of_nat 10) = Inr (?b, True)"
    by code_simp
  have h: "0 \<le> work_hours ?u" by (simp add: work_hours_def)
  have n: "CHR 0x0A \<notin> set ''P_1234''" by simp
  have s: "\<not> sublist '' out of'' ''P_1234''" by code_simp
  from render_idempotent_whole_budget[OF r h n s] r show ?thesis by (intro conjI)
qed

end
